theory Spec2Isabelle
  imports Complex_Main "HOL-Library.Char_ord" "HOL-Library.List_Lexorder" "HOL-Library.Log_Nat"
begin

section \<open>JavaScript values used by the program\<close>

text \<open>
  A JavaScript string is modelled by an Isabelle \<open>string\<close>: a list of code units in the
  range 0..255 (the Latin-1 part of UTF-16).  \<open>null\<close> and \<open>undefined\<close> are \<open>None\<close>.
  Numbers are modelled by exact reals where a property does not depend on rounding, with
  \<open>NaN\<close> written as \<open>None\<close> where a computation of the program can produce it, and
  by binary64 values where it does.
\<close>

definition upper_letters :: "char list" where
  "upper_letters = ''ABCDEFGHIJKLMNOPQRSTUVWXYZ'' @
     [CHR 0xC0, CHR 0xC1, CHR 0xC2, CHR 0xC3, CHR 0xC4, CHR 0xC5, CHR 0xC6, CHR 0xC7,
      CHR 0xC8, CHR 0xC9, CHR 0xCA, CHR 0xCB, CHR 0xCC, CHR 0xCD, CHR 0xCE, CHR 0xCF,
      CHR 0xD0, CHR 0xD1, CHR 0xD2, CHR 0xD3, CHR 0xD4, CHR 0xD5, CHR 0xD6,
      CHR 0xD8, CHR 0xD9, CHR 0xDA, CHR 0xDB, CHR 0xDC, CHR 0xDD, CHR 0xDE]"

definition lower_letters :: "char list" where
  "lower_letters = ''abcdefghijklmnopqrstuvwxyz'' @
     [CHR 0xE0, CHR 0xE1, CHR 0xE2, CHR 0xE3, CHR 0xE4, CHR 0xE5, CHR 0xE6, CHR 0xE7,
      CHR 0xE8, CHR 0xE9, CHR 0xEA, CHR 0xEB, CHR 0xEC, CHR 0xED, CHR 0xEE, CHR 0xEF,
      CHR 0xF0, CHR 0xF1, CHR 0xF2, CHR 0xF3, CHR 0xF4, CHR 0xF5, CHR 0xF6,
      CHR 0xF8, CHR 0xF9, CHR 0xFA, CHR 0xFB, CHR 0xFC, CHR 0xFD, CHR 0xFE]"

text \<open>\<open>String.prototype.toLowerCase\<close> on Latin-1 code units: the 26 ASCII capitals and
  the 30 accented capitals U+00C0..U+00DE (without the multiplication sign U+00D7) move
  to their small letters, every other code unit stays.\<close>

definition toLowerCase_char :: "char \<Rightarrow> char" where
  "toLowerCase_char c =
     (case map_of (zip upper_letters lower_letters) c of Some d \<Rightarrow> d | None \<Rightarrow> c)"

definition toLowerCase :: "string \<Rightarrow> string" where
  "toLowerCase s = map toLowerCase_char s"

text \<open>\<open>String.prototype.toUpperCase\<close>, for the ASCII letters and the accented small
  letters whose capital is again a Latin-1 code unit (tickers are ASCII).\<close>

definition toUpperCase_char :: "char \<Rightarrow> char" where
  "toUpperCase_char c =
     (case map_of (zip lower_letters upper_letters) c of Some d \<Rightarrow> d | None \<Rightarrow> c)"

definition toUpperCase :: "string \<Rightarrow> string" where
  "toUpperCase s = map toUpperCase_char s"

text \<open>The white space and line terminators that \<open>trim\<close> removes, among the Latin-1
  code units: TAB, LF, VT, FF, CR, SPACE and NO-BREAK SPACE.\<close>

definition is_whitespace :: "char \<Rightarrow> bool" where
  "is_whitespace c \<longleftrightarrow>
     c \<in> set [CHR 0x09, CHR 0x0A, CHR 0x0B, CHR 0x0C, CHR 0x0D, CHR 0x20, CHR 0xA0]"

definition trim :: "string \<Rightarrow> string" where
  "trim s = rev (dropWhile is_whitespace (rev (dropWhile is_whitespace s)))"

fun starts_with :: "string \<Rightarrow> string \<Rightarrow> bool" where
  "starts_with s [] = True"
| "starts_with [] (k # ks) = False"
| "starts_with (c # cs) (k # ks) = (c = k \<and> starts_with cs ks)"

text \<open>\<open>s.includes(k)\<close>: \<open>k\<close> occurs in \<open>s\<close> as a contiguous substring.\<close>

fun str_includes :: "string \<Rightarrow> string \<Rightarrow> bool" where
  "str_includes [] k = (k = [])"
| "str_includes (c # cs) k = (starts_with (c # cs) k \<or> str_includes cs k)"

subsection \<open>Numbers\<close>

text \<open>
  A JavaScript number is an IEEE 754 binary64 value: a finite value, written here as the
  real it denotes, one of the two infinities, or \<open>NaN\<close>.  The result of an arithmetic
  operation is the exact result rounded to the nearest representable value, a tie going
  to the even significand.  Negative zero is identified with zero: the operations below
  tell the two apart only in a division by zero, and the aggregation divides only by a
  total that passed the test \<open>totalFairValue > 0\<close>.

  \<open>expo x\<close> is the binary exponent of a non-zero \<open>x\<close>, the integer \<open>e\<close> with
  \<open>2 powi e \<le> \<bar>x\<bar> < 2 powi (e + 1)\<close>.  \<open>rne\<close> rounds a real to the nearest integer,
  ties to even.  A binary64 value has a significand of 53 bits and its last place is
  never finer than \<open>2 powi (- 1074)\<close>, so the representable values next to \<open>x\<close> are
  multiples of \<open>2 powi (ulp_exp x)\<close>.  \<open>round64\<close> rounds a real to binary64 with the
  exponent unbounded above, and \<open>fl\<close> turns a rounded magnitude of \<open>2 ^ 1024\<close> or more
  into an infinity.
\<close>

definition expo :: "real \<Rightarrow> int" where
  "expo x = (if 1 \<le> \<bar>x\<bar> then bitlen \<lfloor>\<bar>x\<bar>\<rfloor> - 1 else - bitlen (\<lceil>1 / \<bar>x\<bar>\<rceil> - 1))"

definition rne :: "real \<Rightarrow> int" where
  "rne y =
     (let f = \<lfloor>y\<rfloor>; d = y - of_int f
      in if d < 1 / 2 then f else if d > 1 / 2 then f + 1 else if even f then f else f + 1)"

definition ulp_exp :: "real \<Rightarrow> int" where
  "ulp_exp x = max (expo x - 52) (- 1074)"

definition round64 :: "real \<Rightarrow> real" where
  "round64 x =
     (if x = 0 then 0
      else of_int (rne (x / 2 powi (ulp_exp x))) * 2 powi (ulp_exp x))"

datatype number = Fin real | PosInf | NegInf | NaN

definition overflow_bound :: real where
  "overflow_bound = 2 ^ 1024"

definition fl :: "real \<Rightarrow> number" where
  "fl x =
     (let r = round64 x
      in if r \<ge> overflow_bound then PosInf
         else if r \<le> - overflow_bound then NegInf
         else Fin r)"

definition inf_of_sign :: "bool \<Rightarrow> number" where
  "inf_of_sign positive = (if positive then PosInf else NegInf)"

text \<open>\<open>x + y\<close>, \<open>x * y\<close> and \<open>x / y\<close> on numbers.\<close>

fun js_add :: "number \<Rightarrow> number \<Rightarrow> number" where
  "js_add (Fin a) (Fin b) = fl (a + b)"
| "js_add NaN y = NaN"
| "js_add x NaN = NaN"
| "js_add PosInf NegInf = NaN"
| "js_add NegInf PosInf = NaN"
| "js_add PosInf y = PosInf"
| "js_add x PosInf = PosInf"
| "js_add NegInf y = NegInf"
| "js_add x NegInf = NegInf"

fun js_mul :: "number \<Rightarrow> number \<Rightarrow> number" where
  "js_mul (Fin a) (Fin b) = fl (a * b)"
| "js_mul NaN y = NaN"
| "js_mul x NaN = NaN"
| "js_mul (Fin a) PosInf = (if a = 0 then NaN else inf_of_sign (a > 0))"
| "js_mul (Fin a) NegInf = (if a = 0 then NaN else inf_of_sign (a < 0))"
| "js_mul PosInf (Fin b) = (if b = 0 then NaN else inf_of_sign (b > 0))"
| "js_mul NegInf (Fin b) = (if b = 0 then NaN else inf_of_sign (b < 0))"
| "js_mul PosInf PosInf = PosInf"
| "js_mul NegInf NegInf = PosInf"
| "js_mul PosInf NegInf = NegInf"
| "js_mul NegInf PosInf = NegInf"

fun js_div :: "number \<Rightarrow> number \<Rightarrow> number" where
  "js_div (Fin a) (Fin b) =
     (if b = 0 then (if a = 0 then NaN else inf_of_sign (a > 0)) else fl (a / b))"
| "js_div NaN y = NaN"
| "js_div x NaN = NaN"
| "js_div (Fin a) PosInf = Fin 0"
| "js_div (Fin a) NegInf = Fin 0"
| "js_div PosInf (Fin b) = inf_of_sign (b \<ge> 0)"
| "js_div NegInf (Fin b) = inf_of_sign (b < 0)"
| "js_div PosInf y = NaN"
| "js_div NegInf y = NaN"

text \<open>\<open>x > 0\<close> on a number, and \<open>x || 0\<close> on a number that may be missing: \<open>undefined\<close>,
  \<open>null\<close>, \<open>NaN\<close> and 0 are the falsy values.\<close>

fun js_positive :: "number \<Rightarrow> bool" where
  "js_positive (Fin a) = (a > 0)"
| "js_positive PosInf = True"
| "js_positive NegInf = False"
| "js_positive NaN = False"

fun number_or_zero :: "number option \<Rightarrow> number" where
  "number_or_zero None = Fin 0"
| "number_or_zero (Some NaN) = Fin 0"
| "number_or_zero (Some v) = v"

section \<open>Sector taxonomy and classifier\<close>

definition SECTORS :: "string list" where
  "SECTORS =
    [''Software & Technology'',
     ''Healthcare'',
     ''Business Services'',
     ''Industrials'',
     ''Consumer'',
     ''Financial Services'',
     ''Media & Telecom'',
     ''Energy'',
     ''Real Estate'',
     ''Other'']"

text \<open>The keyword table, as the association list that \<open>Object.entries\<close> enumerates:
  string keys in insertion order.\<close>

definition SECTOR_KEYWORDS :: "(string \<times> string list) list" where
  "SECTOR_KEYWORDS =
    [(''Software & Technology'',
        [''software'', ''saas'', ''technology'', ''tech'', ''it services'', ''data'',
         ''cloud'', ''cyber'', ''digital'', ''internet'', ''computer'', ''electronics'',
         ''semiconductor'', ''application'', ''platform'', ''analytics'']),
     (''Healthcare'',
        [''health'', ''medical'', ''pharma'', ''biotech'', ''hospital'', ''clinical'',
         ''dental'', ''physician'', ''drug'', ''therapeutic'', ''diagnostic'', ''life science'',
         ''veterinary'', ''healthcare'']),
     (''Business Services'',
        [''business services'', ''professional services'', ''staffing'', ''consulting'',
         ''outsourcing'', ''human resources'', ''hr services'', ''marketing services'',
         ''advertising'', ''commercial services'']),
     (''Industrials'',
        [''industrial'', ''manufacturing'', ''aerospace'', ''defense'', ''machinery'',
         ''construction'', ''engineering'', ''transportation'', ''logistics'',
         ''distribution'', ''building products'', ''equipment'']),
     (''Consumer'',
        [''consumer'', ''retail'', ''restaurant'', ''food'', ''beverage'', ''apparel'',
         ''leisure'', ''entertainment'', ''gaming'', ''hotel'', ''hospitality'',
         ''e-commerce'', ''education'', ''personal services'']),
     (''Financial Services'',
        [''financial'', ''insurance'', ''banking'', ''asset management'', ''lending'',
         ''capital markets'', ''investment'', ''fintech'']),
     (''Media & Telecom'',
        [''media'', ''telecom'', ''telecommunications'', ''broadcasting'', ''publishing'',
         ''communications'', ''wireless'', ''cable'']),
     (''Energy'',
        [''energy'', ''oil'', ''gas'', ''petroleum'', ''pipeline'', ''power'',
         ''utilities'', ''renewable'', ''solar'', ''wind'']),
     (''Real Estate'',
        [''real estate'', ''property'', ''reit'', ''housing'']),
     (''Other'', [])]"

text \<open>The inner loop of \<open>classifySector\<close>: the first keyword of the list that the text
  includes, if there is one.\<close>

fun first_keyword :: "string \<Rightarrow> string list \<Rightarrow> string option" where
  "first_keyword industry [] = None"
| "first_keyword industry (keyword # keywords) =
     (if str_includes industry keyword then Some keyword else first_keyword industry keywords)"

text \<open>The outer loop: the entries of the table in order, the entry \<open>Other\<close> skipped;
  after the last entry the function returns \<open>Other\<close>.\<close>

fun scan_sectors :: "string \<Rightarrow> (string \<times> string list) list \<Rightarrow> string" where
  "scan_sectors industry [] = ''Other''"
| "scan_sectors industry ((sector, keywords) # entries) =
     (if sector = ''Other'' then scan_sectors industry entries
      else (case first_keyword industry keywords of
              Some keyword \<Rightarrow> sector
            | None \<Rightarrow> scan_sectors industry entries))"

definition classifySector :: "string option \<Rightarrow> string" where
  "classifySector rawIndustry =
     (case rawIndustry of
        None \<Rightarrow> ''Other''
      | Some raw \<Rightarrow>
          if raw = [] then ''Other''
          else scan_sectors (trim (toLowerCase raw)) SECTOR_KEYWORDS)"

text \<open>Vocabulary for the properties of the classifier.  \<open>sector_hit txt s\<close>: the
  normalised text includes a keyword registered for sector \<open>s\<close>.
  \<open>declared_before a b\<close>: \<open>a\<close> stands before \<open>b\<close> in the taxonomy.\<close>

definition sector_hit :: "string \<Rightarrow> string \<Rightarrow> bool" where
  "sector_hit txt s =
     (case map_of SECTOR_KEYWORDS s of
        None \<Rightarrow> False
      | Some keywords \<Rightarrow> list_ex (str_includes (trim (toLowerCase txt))) keywords)"

definition sectors_before :: "string \<Rightarrow> string list" where
  "sectors_before s = takeWhile (\<lambda>x. x \<noteq> s) SECTORS"

definition declared_before :: "string \<Rightarrow> string \<Rightarrow> bool" where
  "declared_before a b \<longleftrightarrow> b \<in> set SECTORS \<and> a \<in> set (sectors_before b)"

text \<open>The same test against any table of entries, for reasoning about the scan.\<close>

definition entry_hit :: "string \<Rightarrow> (string \<times> string list) list \<Rightarrow> string \<Rightarrow> bool" where
  "entry_hit industry entries s =
     (case map_of entries s of
        None \<Rightarrow> False
      | Some keywords \<Rightarrow> list_ex (str_includes industry) keywords)"

section \<open>Screener page: holdings, aggregation and merge\<close>

text \<open>A row of the table \<open>holdings\<close>, with the columns the page reads.\<close>

record Holding =
  bdc_cik :: string
  period_date :: string
  company_name :: string
  industry_raw :: "string option"
  industry_sector :: "string option"
  fair_value :: "real option"

text \<open>A row of the table \<open>bdcs\<close>.\<close>

record BDC =
  cik :: string
  name :: string
  ticker :: "string option"
  dividend_yield :: "real option"
  dividend_growth_3yr :: "real option"
  nav_per_share :: "real option"
  price :: "real option"
  price_to_nav :: "real option"
  non_accrual_pct :: "real option"
  total_assets :: "real option"
  debt_to_equity :: "real option"
  net_investment_income_yield :: "real option"
  market_cap :: "real option"
  payout_ratio :: "real option"
  beta :: "real option"
  fifty_two_week_high :: "real option"
  fifty_two_week_low :: "real option"
  analyst_target_price :: "real option"
  analyst_rating :: "string option"
  institutional_ownership :: "real option"
  five_yr_avg_dividend_yield :: "real option"
  ex_dividend_date :: "string option"
  updated_at :: "string option"

text \<open>One element of the page's result list.  The object literal copies the metric
  columns of the \<open>bdcs\<close> row one by one; the model keeps the row itself in \<open>entity\<close>.\<close>

record BDCSectorExposure =
  entity :: BDC
  total_fair_value :: real
  latest_period :: string
  sector_exposures :: "string \<rightharpoonup> real"

text \<open>The store as the page sees it: the rows of \<open>bdcs\<close> (\<open>None\<close> when that query
  fails), the rows of \<open>holdings\<close>, and the entities whose holdings query fails.\<close>

record Database =
  bdcs :: "BDC list option"
  holdings :: "Holding list"
  holdings_error :: "string \<Rightarrow> bool"

text \<open>\<open>from('holdings').select('*').eq('bdc_cik', cik).order('period_date', {ascending:
  false})\<close>: the holdings of the entity, latest period first.  Period dates are ISO
  date strings, which the store orders as the strings are ordered.\<close>

definition select_holdings :: "Database \<Rightarrow> string \<Rightarrow> Holding list option" where
  "select_holdings db c =
     (if holdings_error db c then None
      else Some (rev (sort_key period_date (filter (\<lambda>h. bdc_cik h = c) (holdings db)))))"

text \<open>\<open>x || 0\<close> on a nullable number.\<close>

definition or_zero :: "real option \<Rightarrow> real" where
  "or_zero x = (case x of None \<Rightarrow> 0 | Some v \<Rightarrow> v)"

text \<open>\<open>holding.industry_sector || classifySector(holding.industry_raw)\<close>\<close>

definition holding_sector :: "Holding \<Rightarrow> string" where
  "holding_sector h =
     (case industry_sector h of
        None \<Rightarrow> classifySector (industry_raw h)
      | Some s \<Rightarrow> if s = [] then classifySector (industry_raw h) else s)"

text \<open>One round of the loop over \<open>latestHoldings\<close>:
  \<open>sectorTotals[sector] = (sectorTotals[sector] || 0) + (holding.fair_value || 0)\<close>\<close>

definition add_holding :: "(string \<rightharpoonup> real) \<Rightarrow> Holding \<Rightarrow> (string \<rightharpoonup> real)" where
  "add_holding sectorTotals h =
     sectorTotals(holding_sector h \<mapsto> or_zero (sectorTotals (holding_sector h)) + or_zero (fair_value h))"

definition sector_totals :: "Holding list \<Rightarrow> (string \<rightharpoonup> real)" where
  "sector_totals latestHoldings = foldl add_holding Map.empty latestHoldings"

text \<open>The loop over \<open>SECTORS\<close> that writes the percentages.\<close>

definition percentages :: "(string \<rightharpoonup> real) \<Rightarrow> real \<Rightarrow> (string \<rightharpoonup> real)" where
  "percentages sectorTotals totalFairValue =
     fold (\<lambda>sector m. m(sector \<mapsto> (or_zero (sectorTotals sector) / totalFairValue) * 100))
          SECTORS Map.empty"

text \<open>The loop that sets every sector still missing to 0.\<close>

definition fill_missing :: "(string \<rightharpoonup> real) \<Rightarrow> (string \<rightharpoonup> real)" where
  "fill_missing sectorExposures =
     fold (\<lambda>sector m. if m sector = None then m(sector \<mapsto> 0) else m) SECTORS sectorExposures"

definition total_of :: "Holding list \<Rightarrow> real" where
  "total_of latestHoldings = foldl (\<lambda>sum h. sum + or_zero (fair_value h)) 0 latestHoldings"

text \<open>\<open>latestPeriod = holdings[0].period_date\<close> and
  \<open>latestHoldings = holdings.filter((h) => h.period_date === latestPeriod)\<close>, for a
  non-empty query result.\<close>

definition latest_holdings :: "Holding list \<Rightarrow> Holding list" where
  "latest_holdings hs =
     (case hs of [] \<Rightarrow> [] | h0 # rest \<Rightarrow> filter (\<lambda>h. period_date h = period_date h0) hs)"

text \<open>The three local variables that the aggregation of one entity leaves behind.\<close>

record Aggregate =
  totalFairValue :: real
  latestPeriod :: string
  sectorExposures :: "string \<rightharpoonup> real"

text \<open>The aggregation of one entity inside \<open>getBDCData\<close>, from the result of its holdings
  query (\<open>None\<close>: the query failed or gave no data).\<close>

definition aggregate :: "Holding list option \<Rightarrow> Aggregate" where
  "aggregate q =
     (case q of
        Some (h0 # rest) \<Rightarrow>
          (let latestHoldings = latest_holdings (h0 # rest);
               total = total_of latestHoldings
           in \<lparr>totalFairValue = total,
               latestPeriod = period_date h0,
               sectorExposures =
                 fill_missing
                   (if total > 0 then percentages (sector_totals latestHoldings) total
                    else Map.empty)\<rparr>)
      | _ \<Rightarrow> \<lparr>totalFairValue = 0, latestPeriod = [], sectorExposures = fill_missing Map.empty\<rparr>)"

text \<open>
  The same aggregation with the numbers as the runtime has them.  The definitions above
  read every number as an exact real, which is enough wherever a property does not
  depend on rounding; the definitions below follow the same statements of \<open>getBDCData\<close>
  in binary64.  \<open>fair_value64\<close> is the fair value of a row as the client decodes it: the
  stored decimal rounded to binary64.
\<close>

definition fair_value64 :: "Holding \<Rightarrow> number option" where
  "fair_value64 h = map_option fl (fair_value h)"

text \<open>\<open>latestHoldings.reduce((sum, h) => sum + (h.fair_value || 0), 0)\<close>\<close>

definition total_of64 :: "Holding list \<Rightarrow> number" where
  "total_of64 latestHoldings =
     foldl (\<lambda>sum h. js_add sum (number_or_zero (fair_value64 h))) (Fin 0) latestHoldings"

text \<open>\<open>sectorTotals[sector] = (sectorTotals[sector] || 0) + (holding.fair_value || 0)\<close>\<close>

definition add_holding64 :: "(string \<rightharpoonup> number) \<Rightarrow> Holding \<Rightarrow> (string \<rightharpoonup> number)" where
  "add_holding64 sectorTotals h =
     sectorTotals(holding_sector h \<mapsto>
       js_add (number_or_zero (sectorTotals (holding_sector h))) (number_or_zero (fair_value64 h)))"

definition sector_totals64 :: "Holding list \<Rightarrow> (string \<rightharpoonup> number)" where
  "sector_totals64 latestHoldings = foldl add_holding64 Map.empty latestHoldings"

text \<open>\<open>sectorExposures[sector] = ((sectorTotals[sector] || 0) / totalFairValue) * 100\<close>\<close>

definition percentages64 :: "(string \<rightharpoonup> number) \<Rightarrow> number \<Rightarrow> (string \<rightharpoonup> number)" where
  "percentages64 sectorTotals totalValue =
     fold (\<lambda>sector m.
             m(sector \<mapsto> js_mul (js_div (number_or_zero (sectorTotals sector)) totalValue) (Fin 100)))
          SECTORS Map.empty"

text \<open>\<open>if (sectorExposures[sector] == null) sectorExposures[sector] = 0\<close>: only a missing
  entry is replaced, \<open>NaN\<close> is not \<open>null\<close>.\<close>

definition fill_missing64 :: "(string \<rightharpoonup> number) \<Rightarrow> (string \<rightharpoonup> number)" where
  "fill_missing64 exposures =
     fold (\<lambda>sector m. if m sector = None then m(sector \<mapsto> Fin 0) else m) SECTORS exposures"

record Aggregate64 =
  totalFairValue64 :: number
  latestPeriod64 :: string
  sectorExposures64 :: "string \<rightharpoonup> number"

definition aggregate64 :: "Holding list option \<Rightarrow> Aggregate64" where
  "aggregate64 q =
     (case q of
        Some (h0 # rest) \<Rightarrow>
          (let latestHoldings = latest_holdings (h0 # rest);
               total = total_of64 latestHoldings
           in \<lparr>totalFairValue64 = total,
               latestPeriod64 = period_date h0,
               sectorExposures64 =
                 fill_missing64
                   (if js_positive total then percentages64 (sector_totals64 latestHoldings) total
                    else Map.empty)\<rparr>)
      | _ \<Rightarrow> \<lparr>totalFairValue64 = Fin 0, latestPeriod64 = [],
              sectorExposures64 = fill_missing64 Map.empty\<rparr>)"

text \<open>The loop over the entities, with the skip rule of the merge step.\<close>

fun merge_rows :: "Database \<Rightarrow> BDC list \<Rightarrow> BDCSectorExposure list" where
  "merge_rows db [] = []"
| "merge_rows db (bdc # rest) =
     (let a = aggregate (select_holdings db (cik bdc))
      in if totalFairValue a = 0 \<and> price bdc = None \<and> dividend_yield bdc = None
         then merge_rows db rest
         else \<lparr>entity = bdc, total_fair_value = totalFairValue a,
               latest_period = latestPeriod a, sector_exposures = sectorExposures a\<rparr>
              # merge_rows db rest)"

text \<open>The latest \<open>updated_at\<close> over all entities (a \<open>reduce\<close> from \<open>null\<close>).\<close>

definition last_updated :: "BDC list \<Rightarrow> string option" where
  "last_updated rows =
     foldl (\<lambda>latest bdc.
              case updated_at bdc of
                None \<Rightarrow> latest
              | Some u \<Rightarrow>
                  if u = [] then latest
                  else (case latest of
                          None \<Rightarrow> Some u
                        | Some l \<Rightarrow> if l = [] then Some u else if u > l then Some u else Some l))
           None rows"

definition getBDCData :: "Database \<Rightarrow> BDCSectorExposure list \<times> string option" where
  "getBDCData db =
     (case bdcs db of
        None \<Rightarrow> ([], None)
      | Some rows \<Rightarrow> (merge_rows db rows, last_updated rows))"

text \<open>The summary averages of the page, each of the shape
  \<open>data.filter(b => b.m).reduce((sum, b) => sum + (b.m || 0), 0) / data.filter(b => b.m).length\<close>
  for a metric \<open>m\<close>.  \<open>b.m\<close> is truthy when it is neither \<open>null\<close> nor 0; a division by
  the length 0 gives \<open>NaN\<close>, written \<open>None\<close>.  The formatting by \<open>toFixed\<close> is left out.\<close>

definition truthy :: "real option \<Rightarrow> bool" where
  "truthy x = (case x of None \<Rightarrow> False | Some v \<Rightarrow> v \<noteq> 0)"

definition average_metric :: "(BDC \<Rightarrow> real option) \<Rightarrow> BDCSectorExposure list \<Rightarrow> real option" where
  "average_metric m bdcData =
     (let selected = filter (\<lambda>b. truthy (m (entity b))) bdcData;
          total = foldl (\<lambda>sum b. sum + or_zero (m (entity b))) 0 selected
      in if length selected = 0 then None else Some (total / real (length selected)))"


definition avg_price_to_nav :: "BDCSectorExposure list \<Rightarrow> real option" where
  "avg_price_to_nav = average_metric price_to_nav"

definition avg_non_accrual :: "BDCSectorExposure list \<Rightarrow> real option" where
  "avg_non_accrual = average_metric non_accrual_pct"

section \<open>Watchlist: cache, freshness and batch analysis\<close>

text \<open>Time stamps are ISO strings in the program; the model keeps the epoch milliseconds
  that \<open>new Date(s).getTime()\<close> reads from them, and \<open>None\<close> for an empty or unreadable
  string (whose time is \<open>NaN\<close>, so that every comparison with it is false).\<close>

record WatchlistItem =
  item_id :: string
  item_ticker :: string
  item_company_name :: "string option"
  item_description :: "string option"
  item_sector :: "string option"
  item_industry :: "string option"
  item_market_cap :: "real option"
  item_price :: "real option"
  item_revenue :: "real option"
  item_net_income :: "real option"
  item_eps :: "real option"
  item_pe_ratio :: "real option"
  item_pb_ratio :: "real option"
  item_ev_ebitda :: "real option"
  item_roe :: "real option"
  item_ytd_change :: "real option"
  item_one_year_change :: "real option"
  item_risks :: "string list"
  item_strengths :: "string list"
  item_evaluation :: "string option"
  item_analyzed_at :: "int option"
  item_created_at :: "int option"

record FMPTickerData =
  fmp_companyName :: string
  fmp_description :: string
  fmp_sector :: string
  fmp_industry :: string
  fmp_mktCap :: real
  fmp_price :: real
  fmp_revenue :: real
  fmp_netIncome :: real
  fmp_eps :: real
  fmp_peRatio :: real
  fmp_pbRatio :: real
  fmp_returnOnEquity :: real
  fmp_evToEBITDA :: real
  fmp_ytdChange :: real
  fmp_oneYearChange :: real

record AIAnalysis =
  ai_risks :: "string list"
  ai_strengths :: "string list"
  ai_evaluation :: string
  ai_revenue :: real
  ai_netIncome :: real
  ai_eps :: real
  ai_peRatio :: real
  ai_pbRatio :: real
  ai_evEbitda :: real

text \<open>What the handler does to the outside world, in order: a call of the quote
  collaborator, a call of the AI collaborator, an attempt to write the cache file.\<close>

datatype call = QuoteCall string | AICall string | CacheWrite string

record Server =
  watchlist :: "WatchlistItem list"
  calls :: "call list"

text \<open>The outside world during the round of one ticker: the clock read by \<open>isRecent\<close>,
  the answers of the two collaborators (\<open>Inl\<close> carries the message of a thrown error),
  the fresh identifier and the two time stamps of the new item, and the error that
  \<open>saveWatchlist\<close> throws when the cache file cannot be written (\<open>mkdirSync\<close> and
  \<open>writeFileSync\<close> are not caught there), if any.\<close>

record Oracle =
  now :: int
  fetchTickerData :: "string \<Rightarrow> string + FMPTickerData"
  analyzeWithClaude :: "string \<Rightarrow> FMPTickerData \<Rightarrow> string + AIAnalysis"
  randomUUID :: string
  analyzed_stamp :: int
  created_stamp :: int
  saveError :: "string option"

definition isRecent :: "int option \<Rightarrow> int \<Rightarrow> int \<Rightarrow> bool" where
  "isRecent dateStr hours clock =
     (case dateStr of
        None \<Rightarrow> False
      | Some analyzed \<Rightarrow> analyzed > clock - hours * 60 * 60 * 1000)"

definition getItem :: "WatchlistItem list \<Rightarrow> string \<Rightarrow> WatchlistItem option" where
  "getItem items t = find (\<lambda>i. item_ticker i = toUpperCase t) items"

fun replace_first :: "string \<Rightarrow> WatchlistItem \<Rightarrow> WatchlistItem list \<Rightarrow> WatchlistItem list option" where
  "replace_first t item [] = None"
| "replace_first t item (i # items) =
     (if item_ticker i = t then Some (item # items)
      else map_option (\<lambda>r. i # r) (replace_first t item items))"

text \<open>\<open>upsertItem\<close>: replace the first entry of that ticker, or put the item in front.\<close>

definition upsertItem :: "WatchlistItem list \<Rightarrow> WatchlistItem \<Rightarrow> WatchlistItem list" where
  "upsertItem items item =
     (case replace_first (item_ticker item) item items of
        Some items' \<Rightarrow> items'
      | None \<Rightarrow> item # items)"

text \<open>\<open>a || b\<close> on numbers.\<close>

definition num_or :: "real \<Rightarrow> real \<Rightarrow> real" where
  "num_or a b = (if a = 0 then b else a)"

text \<open>The analysis substituted when the AI collaborator throws.\<close>

definition placeholder_analysis :: AIAnalysis where
  "placeholder_analysis =
     \<lparr>ai_risks = [''AI analysis unavailable - check API key credits''],
      ai_strengths = [''AI analysis unavailable - check API key credits''],
      ai_evaluation = ''AI analysis could not be generated. Financial data shown above is from live market data.'',
      ai_revenue = 0, ai_netIncome = 0, ai_eps = 0, ai_peRatio = 0, ai_pbRatio = 0,
      ai_evEbitda = 0\<rparr>"

definition build_item :: "Oracle \<Rightarrow> string \<Rightarrow> FMPTickerData \<Rightarrow> AIAnalysis \<Rightarrow> WatchlistItem" where
  "build_item env t fmpData analysis =
     \<lparr>item_id = randomUUID env,
      item_ticker = t,
      item_company_name = Some (fmp_companyName fmpData),
      item_description = Some (fmp_description fmpData),
      item_sector = Some (fmp_sector fmpData),
      item_industry = Some (fmp_industry fmpData),
      item_market_cap = Some (fmp_mktCap fmpData),
      item_price = Some (fmp_price fmpData),
      item_revenue = Some (num_or (ai_revenue analysis) (fmp_revenue fmpData)),
      item_net_income = Some (num_or (ai_netIncome analysis) (fmp_netIncome fmpData)),
      item_eps = Some (num_or (ai_eps analysis) (fmp_eps fmpData)),
      item_pe_ratio = Some (num_or (ai_peRatio analysis) (fmp_peRatio fmpData)),
      item_pb_ratio = Some (num_or (ai_pbRatio analysis) (fmp_pbRatio fmpData)),
      item_ev_ebitda = Some (num_or (ai_evEbitda analysis) (fmp_evToEBITDA fmpData)),
      item_roe = Some (fmp_returnOnEquity fmpData),
      item_ytd_change = Some (fmp_ytdChange fmpData),
      item_one_year_change = Some (fmp_oneYearChange fmpData),
      item_risks = ai_risks analysis,
      item_strengths = ai_strengths analysis,
      item_evaluation = Some (ai_evaluation analysis),
      item_analyzed_at = Some (analyzed_stamp env),
      item_created_at = Some (created_stamp env)\<rparr>"

text \<open>The accumulator of the loop: the server, \<open>results\<close> and \<open>errors\<close>.\<close>

type_synonym batch = "Server \<times> WatchlistItem list \<times> (string \<times> string) list"

text \<open>The path after a cache miss: quote fetch, AI attempt, item, \<open>upsertItem\<close>.  An
  error of the quote fetch goes to \<open>errors\<close>; an error of the AI call is replaced by the
  placeholder analysis; an error thrown by \<open>upsertItem\<close> while it saves the file is caught
  by the same per-ticker handler as the quote error: it goes to \<open>errors\<close>, the file keeps
  its content and the item is not added to \<open>results\<close>.\<close>

definition refresh_ticker :: "Oracle \<Rightarrow> batch \<Rightarrow> string \<Rightarrow> batch" where
  "refresh_ticker env acc t =
     (case acc of (srv, results, errors) \<Rightarrow>
        (let srv1 = srv\<lparr>calls := calls srv @ [QuoteCall t]\<rparr>
         in case fetchTickerData env t of
              Inl message \<Rightarrow> (srv1, results, errors @ [(t, message)])
            | Inr fmpData \<Rightarrow>
                (let analysis =
                       (case analyzeWithClaude env t fmpData of
                          Inr a \<Rightarrow> a
                        | Inl aiErr \<Rightarrow> placeholder_analysis);
                     item = build_item env t fmpData analysis;
                     srv2 = srv1\<lparr>calls := calls srv1 @ [AICall t, CacheWrite t]\<rparr>
                 in case saveError env of
                      Some message \<Rightarrow> (srv2, results, errors @ [(t, message)])
                    | None \<Rightarrow>
                        (srv2\<lparr>watchlist := upsertItem (watchlist srv1) item\<rparr>,
                         results @ [item], errors))))"

text \<open>The body of the loop over \<open>cleanTickers\<close>.\<close>

definition analyze_ticker :: "Oracle \<Rightarrow> batch \<Rightarrow> string \<Rightarrow> batch" where
  "analyze_ticker env acc t =
     (case acc of (srv, results, errors) \<Rightarrow>
        (case getItem (watchlist srv) t of
           Some cached \<Rightarrow>
             if item_analyzed_at cached \<noteq> None \<and> isRecent (item_analyzed_at cached) 24 (now env)
             then (srv, results @ [cached], errors)
             else refresh_ticker env acc t
         | None \<Rightarrow> refresh_ticker env acc t))"

fun process_tickers :: "(nat \<Rightarrow> Oracle) \<Rightarrow> nat \<Rightarrow> batch \<Rightarrow> string list \<Rightarrow> batch" where
  "process_tickers envs i acc [] = acc"
| "process_tickers envs i acc (t # ts) =
     process_tickers envs (Suc i) (analyze_ticker (envs i) acc t) ts"

text \<open>The request body after \<open>request.json()\<close>: the parse throws, or it yields the value
  of \<open>tickers\<close> (\<open>None\<close> when that is not an array).  The elements of the array are
  strings, as the handler's type annotation has them.\<close>

datatype request = InvalidJson string | JsonBody "string list option"

datatype response =
    ErrorResponse nat string
  | AnalyzeResponse "WatchlistItem list" "(string \<times> string) list"

definition cleanTickers :: "string list \<Rightarrow> string list" where
  "cleanTickers tickers =
     filter (\<lambda>t. length t > 0 \<and> length t \<le> 10) (map (\<lambda>t. toUpperCase (trim t)) tickers)"

definition POST :: "(nat \<Rightarrow> Oracle) \<Rightarrow> Server \<Rightarrow> request \<Rightarrow> Server \<times> response" where
  "POST envs srv req =
     (case req of
        InvalidJson message \<Rightarrow> (srv, ErrorResponse 500 message)
      | JsonBody None \<Rightarrow> (srv, ErrorResponse 400 ''No tickers provided'')
      | JsonBody (Some tickers) \<Rightarrow>
          if length tickers = 0 then (srv, ErrorResponse 400 ''No tickers provided'')
          else if length tickers > 25 then (srv, ErrorResponse 400 ''Maximum 25 tickers at a time'')
          else (case process_tickers envs 0 (srv, [], []) (cleanTickers tickers) of
                  (srv', results, errors) \<Rightarrow> (srv', AnalyzeResponse results errors)))"

section \<open>Periodic price refresh\<close>

text \<open>A row of the table \<open>bdcs\<close> as the job sees it: a map from column names to values;
  a column that holds \<open>null\<close> has no value.\<close>

datatype jsval = Num real | Str string

type_synonym row = "string \<Rightarrow> jsval option"

text \<open>The answer of the quote adapter.\<close>

record BDCYahooData =
  yahoo_price :: "real option"
  yahoo_dividend_yield :: "real option"
  yahoo_nav_per_share :: "real option"
  yahoo_debt_to_equity :: "real option"

text \<open>The per-ticker status \<open>updated\<close>, \<open>skipped\<close> or \<open>error\<close>.\<close>

datatype status = Updated | Skipped | Failed

text \<open>The outside world during the round of one entity: the answer of the quote adapter
  (\<open>Inl\<close>: it throws), the time stamp written to \<open>updated_at\<close>, and the error of the store's
  update, if any.\<close>

record RefreshOracle =
  fetchBDCData :: "string \<Rightarrow> string + BDCYahooData"
  isoTimestamp :: string
  updateError :: "string option"

text \<open>\<open>Math.round\<close>: to the nearest integer, halves upwards.\<close>

definition Math_round :: "real \<Rightarrow> real" where
  "Math_round x = of_int \<lfloor>x + 1 / 2\<rfloor>"

text \<open>The object \<open>updateFields\<close>, as the list of its entries in insertion order.\<close>

definition updateFields :: "BDCYahooData \<Rightarrow> string \<Rightarrow> (string \<times> jsval) list" where
  "updateFields yahooData stamp =
     [(''updated_at'', Str stamp)]
     @ (case yahoo_price yahooData of Some v \<Rightarrow> [(''price'', Num v)] | None \<Rightarrow> [])
     @ (case yahoo_dividend_yield yahooData of Some v \<Rightarrow> [(''dividend_yield'', Num v)] | None \<Rightarrow> [])
     @ (case yahoo_nav_per_share yahooData of Some v \<Rightarrow> [(''nav_per_share'', Num v)] | None \<Rightarrow> [])
     @ (case yahoo_debt_to_equity yahooData of Some v \<Rightarrow> [(''debt_to_equity'', Num v)] | None \<Rightarrow> [])
     @ (case yahoo_price yahooData of
          None \<Rightarrow> []
        | Some finalPrice \<Rightarrow>
            (case yahoo_nav_per_share yahooData of
               None \<Rightarrow> []
             | Some finalNav \<Rightarrow>
                 if finalNav > 0
                 then [(''price_to_nav'', Num (Math_round ((finalPrice / finalNav) * 100) / 100))]
                 else []))"

text \<open>\<open>from('bdcs').update(updateFields).eq('cik', cik)\<close>\<close>

definition update_rows :: "row list \<Rightarrow> string \<Rightarrow> (string \<times> jsval) list \<Rightarrow> row list" where
  "update_rows rows c upd =
     map (\<lambda>r. if r ''cik'' = Some (Str c) then r ++ map_of upd else r) rows"

text \<open>\<open>from('bdcs').select('cik, ticker').not('ticker', 'is', null)\<close>\<close>

definition ticker_rows :: "row list \<Rightarrow> (string \<times> string) list" where
  "ticker_rows rows =
     List.map_filter
       (\<lambda>r. case r ''cik'' of
               Some (Str c) \<Rightarrow> (case r ''ticker'' of Some (Str t) \<Rightarrow> Some (c, t) | _ \<Rightarrow> None)
             | _ \<Rightarrow> None)
       rows"

type_synonym refresh_result = "string \<times> status \<times> string option"

text \<open>The body of the loop over the entities.\<close>

definition refresh_bdc ::
  "RefreshOracle \<Rightarrow> row list \<times> refresh_result list \<Rightarrow> string \<times> string \<Rightarrow> row list \<times> refresh_result list" where
  "refresh_bdc env acc bdc =
     (case acc of (rows, results) \<Rightarrow>
      case bdc of (c, t) \<Rightarrow>
        if t = [] then (rows, results)
        else (case fetchBDCData env t of
                Inl message \<Rightarrow> (rows, results @ [(t, Failed, Some message)])
              | Inr yahooData \<Rightarrow>
                  (let upd = updateFields yahooData (isoTimestamp env)
                   in if length upd \<le> 1
                      then (rows, results @ [(t, Skipped, Some ''No data from Yahoo'')])
                      else (case updateError env of
                              Some message \<Rightarrow> (rows, results @ [(t, Failed, Some message)])
                            | None \<Rightarrow> (update_rows rows c upd, results @ [(t, Updated, None)])))))"

fun refresh_all ::
  "(nat \<Rightarrow> RefreshOracle) \<Rightarrow> nat \<Rightarrow> row list \<times> refresh_result list \<Rightarrow> (string \<times> string) list
     \<Rightarrow> row list \<times> refresh_result list" where
  "refresh_all envs i acc [] = acc"
| "refresh_all envs i acc (bdc # rest) = refresh_all envs (Suc i) (refresh_bdc (envs i) acc bdc) rest"

datatype cron_response =
    FetchFailed nat string
  | Summary nat nat nat nat "refresh_result list"

definition GET :: "(nat \<Rightarrow> RefreshOracle) \<Rightarrow> string option \<Rightarrow> row list \<Rightarrow> row list \<times> cron_response" where
  "GET envs fetchError rows =
     (case fetchError of
        Some message \<Rightarrow> (rows, FetchFailed 500 ''Failed to fetch BDCs'')
      | None \<Rightarrow>
          (case refresh_all envs 0 (rows, []) (ticker_rows rows) of
             (rows', results) \<Rightarrow>
               (let updated = length (filter (\<lambda>r. fst (snd r) = Updated) results);
                    errors = length (filter (\<lambda>r. fst (snd r) = Failed) results)
                in (rows', Summary (length (ticker_rows rows)) updated errors
                             (length results - updated - errors) results))))"

section \<open>Vocabulary and sample data for the properties\<close>

subsection \<open>Aggregation and merge\<close>





definition query_rows :: "Holding list option \<Rightarrow> Holding list" where
  "query_rows q = (case q of None \<Rightarrow> [] | Some hs \<Rightarrow> hs)"



text \<open>
  Vocabulary for the percentages.  \<open>sector_typed h\<close>: the stored \<open>industry_sector\<close> of
  the row is of the type \<open>Sector\<close> (one of the ten names), or is missing or empty so that
  the classifier decides.  \<open>value_ok h\<close>: the stored fair value is not negative and at
  most \<open>10 ^ 300\<close>.  \<open>finite_value\<close> reads a percentage that is a finite number,
  \<open>exposure_sum64\<close> is the sum of the ten percentages, and \<open>sum_within_tolerance\<close> says
  that the ten percentages are finite numbers whose sum is within \<open>1e-6\<close> of 100.
\<close>

definition sector_typed :: "Holding \<Rightarrow> bool" where
  "sector_typed h =
     (case industry_sector h of None \<Rightarrow> True | Some s \<Rightarrow> s = [] \<or> s \<in> set SECTORS)"

definition value_ok :: "Holding \<Rightarrow> bool" where
  "value_ok h \<longleftrightarrow> 0 \<le> or_zero (fair_value h) \<and> or_zero (fair_value h) \<le> 10 ^ 300"

fun finite_value :: "number option \<Rightarrow> real option" where
  "finite_value (Some (Fin x)) = Some x"
| "finite_value v = None"

definition exposure_sum64 :: "(string \<rightharpoonup> number) \<Rightarrow> real" where
  "exposure_sum64 m = sum_list (map (\<lambda>s. the (finite_value (m s))) SECTORS)"

definition sum_within_tolerance :: "(string \<rightharpoonup> number) \<Rightarrow> bool" where
  "sum_within_tolerance m \<longleftrightarrow>
     list_all (\<lambda>s. finite_value (m s) \<noteq> None) SECTORS \<and> \<bar>exposure_sum64 m - 100\<bar> \<le> 1 / 10 ^ 6"

text \<open>
  Notions of the rounding analysis.  \<open>tiny\<close> is the smallest positive binary64 value and
  every binary64 value is a multiple of it (\<open>on_grid\<close>).  \<open>unit_roundoff\<close> bounds the
  relative error of one rounding.  \<open>float_sum a ds\<close> is the value of the running sum that
  starts at \<open>a\<close> and adds the numbers \<open>ds\<close> from left to right, \<open>decoded h\<close> is the fair
  value of a row as a binary64 value, and \<open>percent64 s t\<close> is the percentage computed
  from a sector total \<open>s\<close> and a total \<open>t\<close>, while no operation overflows.
\<close>

definition tiny :: real where
  "tiny = 2 powi (- 1074)"

definition on_grid :: "real \<Rightarrow> bool" where
  "on_grid x \<longleftrightarrow> of_int \<lfloor>x / tiny\<rfloor> * tiny = x"

definition unit_roundoff :: real where
  "unit_roundoff = 1 / 2 ^ 53"

definition float_sum :: "real \<Rightarrow> real list \<Rightarrow> real" where
  "float_sum a ds = foldl (\<lambda>s d. round64 (s + d)) a ds"

definition decoded :: "Holding \<Rightarrow> real" where
  "decoded h = round64 (or_zero (fair_value h))"

definition percent64 :: "real \<Rightarrow> real \<Rightarrow> real" where
  "percent64 s t = round64 (round64 (s / t) * 100)"

text \<open>Sample rows and stores.\<close>

definition sample_holding :: "string \<Rightarrow> string \<Rightarrow> string \<Rightarrow> real \<Rightarrow> Holding" where
  "sample_holding c p s v =
     \<lparr>bdc_cik = c, period_date = p, company_name = ''Acme Holdings'',
      industry_raw = None, industry_sector = Some s, fair_value = Some v\<rparr>"

definition blank_bdc :: "string \<Rightarrow> BDC" where
  "blank_bdc c =
     \<lparr>cik = c, name = ''Sample Capital Corp'', ticker = None,
      dividend_yield = None, dividend_growth_3yr = None, nav_per_share = None, price = None,
      price_to_nav = None, non_accrual_pct = None, total_assets = None, debt_to_equity = None,
      net_investment_income_yield = None, market_cap = None, payout_ratio = None, beta = None,
      fifty_two_week_high = None, fifty_two_week_low = None, analyst_target_price = None,
      analyst_rating = None, institutional_ownership = None,
      five_yr_avg_dividend_yield = None, ex_dividend_date = None, updated_at = None\<rparr>"

definition sample_db :: "BDC list \<Rightarrow> Holding list \<Rightarrow> Database" where
  "sample_db rows hs = \<lparr>bdcs = Some rows, holdings = hs, holdings_error = (\<lambda>c. False)\<rparr>"



definition zero_value_holdings :: "Holding list" where
  "zero_value_holdings = [sample_holding ''0001287750'' ''2024-09-30'' ''Energy'' 0]"

definition split_holdings :: "Holding list" where
  "split_holdings =
     [sample_holding ''0001287750'' ''2024-09-30'' ''Consumer'' 1,
      sample_holding ''0001287750'' ''2024-09-30'' ''Energy'' 2]"

definition mixed_sign_holdings :: "Holding list" where
  "mixed_sign_holdings =
     [sample_holding ''0001287750'' ''2024-09-30'' ''Consumer'' 1,
      sample_holding ''0001287750'' ''2024-09-30'' ''Energy'' 100000000000000000000,
      sample_holding ''0001287750'' ''2024-09-30'' ''Healthcare'' (- 100000000000000000000),
      sample_holding ''0001287750'' ''2024-09-30'' ''Consumer'' 1]"

definition overflow_holdings :: "Holding list" where
  "overflow_holdings =
     [sample_holding ''0001287750'' ''2024-09-30'' ''Consumer'' (2 ^ 1023),
      sample_holding ''0001287750'' ''2024-09-30'' ''Energy'' (2 ^ 1023)]"


definition nav_only_bdc :: BDC where
  "nav_only_bdc = (blank_bdc ''0000000001'')\<lparr>nav_per_share := Some 15\<rparr>"

definition nav_only_db :: Database where
  "nav_only_db = sample_db [nav_only_bdc] []"

subsection \<open>Watchlist\<close>

text \<open>A cached item of the ticker exists and passes the freshness test; the three parts
  of the accumulator; a response that carries results rather than an error.\<close>

definition fresh_cached :: "Oracle \<Rightarrow> Server \<Rightarrow> string \<Rightarrow> bool" where
  "fresh_cached env srv t =
     (case getItem (watchlist srv) t of
        None \<Rightarrow> False
      | Some cached \<Rightarrow> item_analyzed_at cached \<noteq> None \<and> isRecent (item_analyzed_at cached) 24 (now env))"

definition batch_server :: "batch \<Rightarrow> Server" where
  "batch_server b = fst b"

definition batch_results :: "batch \<Rightarrow> WatchlistItem list" where
  "batch_results b = fst (snd b)"

definition batch_errors :: "batch \<Rightarrow> (string \<times> string) list" where
  "batch_errors b = snd (snd b)"

definition accepted :: "Server \<times> response \<Rightarrow> bool" where
  "accepted r = (case snd r of AnalyzeResponse results errors \<Rightarrow> True | ErrorResponse code message \<Rightarrow> False)"

text \<open>Sample items, quotes, collaborators and servers.\<close>

definition sample_item :: "string \<Rightarrow> int \<Rightarrow> WatchlistItem" where
  "sample_item t a =
     \<lparr>item_id = ''id-1'', item_ticker = t, item_company_name = None, item_description = None,
      item_sector = None, item_industry = None, item_market_cap = None, item_price = Some 10,
      item_revenue = None, item_net_income = None, item_eps = None, item_pe_ratio = None,
      item_pb_ratio = None, item_ev_ebitda = None, item_roe = None, item_ytd_change = None,
      item_one_year_change = None, item_risks = [], item_strengths = [], item_evaluation = None,
      item_analyzed_at = Some a, item_created_at = Some a\<rparr>"

definition sample_quote :: FMPTickerData where
  "sample_quote =
     \<lparr>fmp_companyName = ''Ares Capital Corporation'', fmp_description = ''A lender'',
      fmp_sector = ''Financial Services'', fmp_industry = ''Asset Management'',
      fmp_mktCap = 14000000000, fmp_price = 21, fmp_revenue = 2900000000,
      fmp_netIncome = 1500000000, fmp_eps = 2, fmp_peRatio = 9, fmp_pbRatio = 1,
      fmp_returnOnEquity = 0, fmp_evToEBITDA = 12, fmp_ytdChange = 3, fmp_oneYearChange = 7\<rparr>"

definition failing_ai_env :: "int \<Rightarrow> Oracle" where
  "failing_ai_env clock =
     \<lparr>now = clock, fetchTickerData = (\<lambda>t. Inr sample_quote),
      analyzeWithClaude = (\<lambda>t d. Inl ''GEMINI_API_KEY not configured''),
      randomUUID = ''id-2'', analyzed_stamp = clock, created_stamp = clock,
      saveError = None\<rparr>"

definition succeeding_env :: "int \<Rightarrow> Oracle" where
  "succeeding_env clock = (failing_ai_env clock)\<lparr>analyzeWithClaude := (\<lambda>t d. Inr placeholder_analysis)\<rparr>"

definition cached_server :: "int \<Rightarrow> Server" where
  "cached_server a = \<lparr>watchlist = [sample_item ''ARCC'' a], calls = []\<rparr>"

definition empty_server :: Server where
  "empty_server = \<lparr>watchlist = [], calls = []\<rparr>"

subsection \<open>Price refresh\<close>

text \<open>The columns the job may write, and the agreement of two rows on all other
  columns.\<close>

definition written_columns :: "string list" where
  "written_columns =
     [''updated_at'', ''price'', ''dividend_yield'', ''nav_per_share'', ''debt_to_equity'', ''price_to_nav'']"

definition same_outside :: "string list \<Rightarrow> row \<Rightarrow> row \<Rightarrow> bool" where
  "same_outside cols r r' \<longleftrightarrow> (\<forall>col. col \<notin> set cols \<longrightarrow> r' col = r col)"

text \<open>A sample row, quote and collaborator.\<close>

definition sample_row :: row where
  "sample_row =
     map_of [(''cik'', Str ''0001287750''), (''ticker'', Str ''ARCC''), (''price'', Num 20),
             (''non_accrual_pct'', Num 2), (''dividend_growth_3yr'', Num 3),
             (''total_assets'', Num 1000), (''net_investment_income_yield'', Num 9)]"

definition sample_yahoo :: BDCYahooData where
  "sample_yahoo =
     \<lparr>yahoo_price = Some 21, yahoo_dividend_yield = None, yahoo_nav_per_share = Some 20,
      yahoo_debt_to_equity = None\<rparr>"

definition sample_refresh_env :: RefreshOracle where
  "sample_refresh_env =
     \<lparr>fetchBDCData = (\<lambda>t. Inr sample_yahoo), isoTimestamp = ''2025-01-02T03:04:05.000Z'',
      updateError = None\<rparr>"

section \<open>Properties of the classifier\<close>

lemma first_keyword_None: "first_keyword industry ks = None \<longleftrightarrow> \<not> list_ex (str_includes industry) ks"
  by (induction ks) auto

lemma entry_hit_Cons:
  "entry_hit industry ((s, ks) # es) c =
     (if c = s then list_ex (str_includes industry) ks else entry_hit industry es c)"
  by (simp add: entry_hit_def)

lemma scan_sectors_range: "scan_sectors industry es \<in> insert ''Other'' (set (map fst es))"
  by (induction industry es rule: scan_sectors.induct) (auto split: option.splits)

lemma scan_sectors_not_later:
  "a \<in> set (takeWhile (\<lambda>x. x \<noteq> b) (map fst es)) \<Longrightarrow> a \<noteq> ''Other'' \<Longrightarrow>
   entry_hit industry es a \<Longrightarrow> scan_sectors industry es \<noteq> b"
proof (induction es)
  case Nil
  then show ?case by simp
next
  case (Cons e es)
  obtain s ks where e: "e = (s, ks)" by (cases e)
  from Cons.prems(1) e have sb: "s \<noteq> b" by (auto split: if_splits)
  show ?case
  proof (cases "a = s")
    case True
    with Cons.prems e have "list_ex (str_includes industry) ks" "s \<noteq> ''Other''"
      by (simp_all add: entry_hit_Cons)
    then show ?thesis using e sb by (auto simp: first_keyword_None split: option.splits)
  next
    case False
    with Cons.prems e sb have "a \<in> set (takeWhile (\<lambda>x. x \<noteq> b) (map fst es))" "entry_hit industry es a"
      by (auto simp: entry_hit_Cons)
    with Cons.IH Cons.prems(2) have "scan_sectors industry es \<noteq> b" by blast
    then show ?thesis using e sb by (auto split: option.splits)
  qed
qed

lemma scan_sectors_first:
  "distinct (map fst es) \<Longrightarrow> a \<noteq> ''Other'' \<Longrightarrow> entry_hit industry es a \<Longrightarrow>
   \<forall>c \<in> set (takeWhile (\<lambda>x. x \<noteq> a) (map fst es)). \<not> entry_hit industry es c \<Longrightarrow>
   scan_sectors industry es = a"
proof (induction es)
  case Nil
  then show ?case by (simp add: entry_hit_def)
next
  case (Cons e es)
  obtain s ks where e: "e = (s, ks)" by (cases e)
  show ?case
  proof (cases "a = s")
    case True
    with Cons.prems e have "list_ex (str_includes industry) ks" "s \<noteq> ''Other''"
      by (simp_all add: entry_hit_Cons)
    then show ?thesis using e True by (auto simp: first_keyword_None split: option.splits)
  next
    case False
    from Cons.prems(4) e False have nohit: "\<not> list_ex (str_includes industry) ks"
      by (simp add: entry_hit_Cons)
    from Cons.prems(1) e have d: "distinct (map fst es)" and sn: "s \<notin> set (map fst es)" by auto
    from Cons.prems(3) e False have h: "entry_hit industry es a" by (simp add: entry_hit_Cons)
    have "\<forall>c \<in> set (takeWhile (\<lambda>x. x \<noteq> a) (map fst es)). \<not> entry_hit industry es c"
    proof
      fix c assume c: "c \<in> set (takeWhile (\<lambda>x. x \<noteq> a) (map fst es))"
      then have "c \<in> set (map fst es)" by (rule set_takeWhileD[THEN conjunct1])
      with sn have "c \<noteq> s" by auto
      moreover from c Cons.prems(4) e False have "\<not> entry_hit industry ((s, ks) # es) c" by simp
      ultimately show "\<not> entry_hit industry es c" by (simp add: entry_hit_Cons)
    qed
    with Cons.IH d Cons.prems(2) h have "scan_sectors industry es = a" by blast
    moreover from nohit have "first_keyword industry ks = None" by (simp add: first_keyword_None)
    ultimately show ?thesis using e by simp
  qed
qed

lemma scan_sectors_no_hit:
  "\<forall>c \<in> set (map fst es). \<not> entry_hit industry es c \<Longrightarrow> distinct (map fst es) \<Longrightarrow>
   scan_sectors industry es = ''Other''"
proof (induction es)
  case Nil
  then show ?case by simp
next
  case (Cons e es)
  obtain s ks where e: "e = (s, ks)" by (cases e)
  from Cons.prems e have nohit: "\<not> list_ex (str_includes industry) ks" by (simp add: entry_hit_Cons)
  from Cons.prems e have "\<forall>c \<in> set (map fst es). \<not> entry_hit industry es c"
    by (auto simp: entry_hit_Cons split: if_splits)
  with Cons.IH Cons.prems e have "scan_sectors industry es = ''Other''" by simp
  moreover from nohit have "first_keyword industry ks = None" by (simp add: first_keyword_None)
  ultimately show ?case using e by simp
qed

lemma keys_SECTOR_KEYWORDS: "map fst SECTOR_KEYWORDS = SECTORS"
  by (simp add: SECTOR_KEYWORDS_def SECTORS_def)

lemma distinct_SECTORS: "distinct SECTORS"
  by (simp add: SECTORS_def)

lemma sector_hit_entry: "sector_hit txt s = entry_hit (trim (toLowerCase txt)) SECTOR_KEYWORDS s"
  by (simp add: sector_hit_def entry_hit_def)

lemma keywords_Other: "map_of SECTOR_KEYWORDS ''Other'' = Some []"
  by (simp add: SECTOR_KEYWORDS_def)

lemma sector_hit_not_Other: "sector_hit txt s \<Longrightarrow> s \<noteq> ''Other''"
  by (auto simp: sector_hit_def keywords_Other)

lemma scan_sectors_empty_text: "scan_sectors [] SECTOR_KEYWORDS = ''Other''"
  by (simp add: SECTOR_KEYWORDS_def)

lemma classifySector_Some:
  "classifySector (Some txt) = scan_sectors (trim (toLowerCase txt)) SECTOR_KEYWORDS"
  by (simp add: classifySector_def trim_def toLowerCase_def scan_sectors_empty_text)

lemma filter_head_first:
  "filter P xs = s # rest \<Longrightarrow> P s \<and> s \<in> set xs \<and> (\<forall>c\<in>set (takeWhile (\<lambda>x. x \<noteq> s) xs). \<not> P c)"
proof (induction xs)
  case Nil
  then show ?case by simp
next
  case (Cons x xs)
  show ?case
  proof (cases "P x")
    case True
    with Cons.prems have "x = s" by simp
    with True show ?thesis by simp
  next
    case False
    with Cons.prems have "filter P xs = s # rest" by simp
    with Cons.IH have "P s \<and> s \<in> set xs \<and> (\<forall>c\<in>set (takeWhile (\<lambda>x. x \<noteq> s) xs). \<not> P c)" by blast
    with False show ?thesis by auto
  qed
qed

lemma classifySector_first_hit:
  assumes "filter (sector_hit txt) SECTORS = s # rest"
  shows "classifySector (Some txt) = s"
proof -
  from filter_head_first[OF assms]
  have h: "sector_hit txt s"
    and n: "\<forall>c\<in>set (takeWhile (\<lambda>x. x \<noteq> s) SECTORS). \<not> sector_hit txt c" by blast+
  have "scan_sectors (trim (toLowerCase txt)) SECTOR_KEYWORDS = s"
  proof (rule scan_sectors_first)
    show "distinct (map fst SECTOR_KEYWORDS)" by (simp add: keys_SECTOR_KEYWORDS distinct_SECTORS)
    show "s \<noteq> ''Other''" using h by (rule sector_hit_not_Other)
    show "entry_hit (trim (toLowerCase txt)) SECTOR_KEYWORDS s" using h by (simp add: sector_hit_entry)
    show "\<forall>c\<in>set (takeWhile (\<lambda>x. x \<noteq> s) (map fst SECTOR_KEYWORDS)).
            \<not> entry_hit (trim (toLowerCase txt)) SECTOR_KEYWORDS c"
      using n by (simp add: keys_SECTOR_KEYWORDS sector_hit_entry)
  qed
  then show ?thesis by (simp add: classifySector_Some)
qed

lemma sector_hit_in_SECTORS: "sector_hit txt s \<Longrightarrow> s \<in> set SECTORS"
proof -
  assume "sector_hit txt s"
  then obtain ks where "map_of SECTOR_KEYWORDS s = Some ks"
    by (auto simp: sector_hit_def split: option.splits)
  then have "(s, ks) \<in> set SECTOR_KEYWORDS" by (rule map_of_SomeD)
  then have "fst (s, ks) \<in> set (map fst SECTOR_KEYWORDS)" by (simp only: set_map) (rule imageI)
  then show ?thesis by (simp only: keys_SECTOR_KEYWORDS fst_conv)
qed

text \<open>
  Claim C1.  Let a text include (after lower-casing and trimming) a keyword of sector
  \<open>A\<close> and a keyword of sector \<open>B\<close>, with \<open>A\<close> declared before \<open>B\<close> in the taxonomy.
  Then \<open>classifySector\<close> answers the first sector of the declared order that has a keyword
  in the text, and never the later sector \<open>B\<close>.  It answers \<open>A\<close> when \<open>A\<close> and \<open>B\<close> are
  the two sectors with a keyword in the text, and more generally whenever no sector
  declared before \<open>A\<close> has one: the scan follows the declared order and the first match
  wins.
\<close>

theorem classifySector_first_match_wins:
  assumes "sector_hit txt A" and "sector_hit txt B" and "declared_before A B"
  shows "classifySector (Some txt) = hd (filter (sector_hit txt) SECTORS) \<and>
         classifySector (Some txt) \<noteq> B \<and>
         (filter (sector_hit txt) SECTORS = [A, B] \<longrightarrow> classifySector (Some txt) = A) \<and>
         (list_all (\<lambda>C. \<not> sector_hit txt C) (sectors_before A) \<longrightarrow> classifySector (Some txt) = A)"
proof -
  let ?ind = "trim (toLowerCase txt)"
  have cs: "classifySector (Some txt) = scan_sectors ?ind SECTOR_KEYWORDS"
    by (rule classifySector_Some)
  from assms(1) have aO: "A \<noteq> ''Other''" by (rule sector_hit_not_Other)
  from assms(1) have "A \<in> set (filter (sector_hit txt) SECTORS)"
    by (simp add: sector_hit_in_SECTORS)
  then obtain s rest where f: "filter (sector_hit txt) SECTORS = s # rest"
    by (cases "filter (sector_hit txt) SECTORS") auto
  from classifySector_first_hit[OF f] f
  have 1: "classifySector (Some txt) = hd (filter (sector_hit txt) SECTORS)" by simp
  from assms(3) have "A \<in> set (takeWhile (\<lambda>x. x \<noteq> B) (map fst SECTOR_KEYWORDS))"
    by (simp add: declared_before_def sectors_before_def keys_SECTOR_KEYWORDS)
  with aO assms(1) have "scan_sectors ?ind SECTOR_KEYWORDS \<noteq> B"
    by (intro scan_sectors_not_later) (simp_all add: sector_hit_entry)
  with cs have 2: "classifySector (Some txt) \<noteq> B" by simp
  have 3: "classifySector (Some txt) = A" if "filter (sector_hit txt) SECTORS = [A, B]"
    using that by (rule classifySector_first_hit)
  have 4: "classifySector (Some txt) = A"
    if "list_all (\<lambda>C. \<not> sector_hit txt C) (sectors_before A)"
  proof -
    have "scan_sectors ?ind SECTOR_KEYWORDS = A"
    proof (rule scan_sectors_first)
      show "distinct (map fst SECTOR_KEYWORDS)" by (simp add: keys_SECTOR_KEYWORDS distinct_SECTORS)
      show "A \<noteq> ''Other''" by (rule aO)
      show "entry_hit ?ind SECTOR_KEYWORDS A" using assms(1) by (simp add: sector_hit_entry)
      show "\<forall>c\<in>set (takeWhile (\<lambda>x. x \<noteq> A) (map fst SECTOR_KEYWORDS)). \<not> entry_hit ?ind SECTOR_KEYWORDS c"
        using that by (simp add: list_all_iff sectors_before_def keys_SECTOR_KEYWORDS sector_hit_entry)
    qed
    with cs show ?thesis by simp
  qed
  from 1 2 3 4 show ?thesis by (intro conjI impI)
qed

theorem classifySector_first_match_wins_witness:
  "sector_hit ''Healthcare Staffing'' ''Healthcare'' \<and>
   sector_hit ''Healthcare Staffing'' ''Business Services'' \<and>
   declared_before ''Healthcare'' ''Business Services'' \<and>
   filter (sector_hit ''Healthcare Staffing'') SECTORS = [''Healthcare'', ''Business Services''] \<and>
   list_all (\<lambda>C. \<not> sector_hit ''Healthcare Staffing'' C) (sectors_before ''Healthcare'') \<and>
   classifySector (Some ''Healthcare Staffing'') \<noteq> ''Business Services'' \<and>
   classifySector (Some ''Healthcare Staffing'') = ''Healthcare''"
proof -
  have h1: "sector_hit ''Healthcare Staffing'' ''Healthcare''" by code_simp
  have h2: "sector_hit ''Healthcare Staffing'' ''Business Services''" by code_simp
  have h3: "declared_before ''Healthcare'' ''Business Services''" by code_simp
  have h4: "list_all (\<lambda>C. \<not> sector_hit ''Healthcare Staffing'' C) (sectors_before ''Healthcare'')"
    by code_simp
  have h5: "filter (sector_hit ''Healthcare Staffing'') SECTORS = [''Healthcare'', ''Business Services'']"
    by code_simp
  note r = classifySector_first_match_wins [OF h1 h2 h3]
  note c1 = r [THEN conjunct2, THEN conjunct1]
  note c2 = r [THEN conjunct2, THEN conjunct2, THEN conjunct1, THEN mp, OF h5]
  note c3 = r [THEN conjunct2, THEN conjunct2, THEN conjunct2, THEN mp, OF h4]
  from h1 h2 h3 h5 h4 c1 c2 show ?thesis by (intro conjI)
qed

lemma toLowerCase_whitespace_list:
  "\<forall>c\<in>set [CHR 0x09, CHR 0x0A, CHR 0x0B, CHR 0x0C, CHR 0x0D, CHR 0x20, CHR 0xA0].
     toLowerCase_char c = c"
  by (simp add: toLowerCase_char_def upper_letters_def lower_letters_def)

lemma toLowerCase_whitespace: "is_whitespace c \<Longrightarrow> toLowerCase_char c = c"
  using toLowerCase_whitespace_list unfolding is_whitespace_def by blast

lemma trim_whitespace_only:
  assumes "\<forall>c\<in>set s. is_whitespace c"
  shows "trim (toLowerCase s) = []"
proof -
  from assms have "map toLowerCase_char s = s"
    by (intro map_idI) (simp add: toLowerCase_whitespace)
  then have l: "toLowerCase s = s" by (simp add: toLowerCase_def)
  from assms have d: "dropWhile is_whitespace s = []"
    by (simp only: dropWhile_eq_Nil_conv)
  show ?thesis by (simp only: trim_def l d rev.simps dropWhile.simps)
qed

text \<open>
  Claim C2.  \<open>classifySector\<close> answers the fallback sector \<open>Other\<close> for \<open>null\<close>, for the
  empty string, for every text of white space only and for every text that includes no
  keyword of any sector; for every input its answer is one of the ten names of the
  taxonomy.
\<close>

theorem classifySector_fallback_total:
  "classifySector None = ''Other'' \<and>
   classifySector (Some []) = ''Other'' \<and>
   (list_all is_whitespace ws \<longrightarrow> classifySector (Some ws) = ''Other'') \<and>
   (list_all (\<lambda>s. \<not> sector_hit txt s) SECTORS \<longrightarrow> classifySector (Some txt) = ''Other'') \<and>
   classifySector x \<in> set SECTORS \<and> length SECTORS = 10 \<and> distinct SECTORS"
proof (intro conjI impI)
  show "classifySector None = ''Other''" by (simp add: classifySector_def)
  show "classifySector (Some []) = ''Other''" by (simp add: classifySector_def)
  show "classifySector (Some ws) = ''Other''" if "list_all is_whitespace ws"
  proof -
    from that have "\<forall>c\<in>set ws. is_whitespace c" by (simp add: list_all_iff)
    from trim_whitespace_only[OF this] show ?thesis
      by (simp add: classifySector_Some scan_sectors_empty_text)
  qed
  show "classifySector (Some txt) = ''Other''" if "list_all (\<lambda>s. \<not> sector_hit txt s) SECTORS"
  proof -
    from that have "\<forall>c \<in> set (map fst SECTOR_KEYWORDS). \<not> entry_hit (trim (toLowerCase txt)) SECTOR_KEYWORDS c"
      by (simp add: list_all_iff keys_SECTOR_KEYWORDS sector_hit_entry)
    then have "scan_sectors (trim (toLowerCase txt)) SECTOR_KEYWORDS = ''Other''"
      by (rule scan_sectors_no_hit) (simp add: keys_SECTOR_KEYWORDS distinct_SECTORS)
    then show ?thesis by (simp add: classifySector_Some)
  qed
  have other: "''Other'' \<in> set SECTORS" by (simp add: SECTORS_def)
  show "classifySector x \<in> set SECTORS"
  proof (cases x)
    case None
    then show ?thesis using other by (simp add: classifySector_def)
  next
    case (Some raw)
    have "scan_sectors (trim (toLowerCase raw)) SECTOR_KEYWORDS \<in> insert ''Other'' (set SECTORS)"
      using scan_sectors_range[of "trim (toLowerCase raw)" SECTOR_KEYWORDS]
      by (simp only: keys_SECTOR_KEYWORDS)
    with other Some show ?thesis by (auto simp: classifySector_Some)
  qed
  show "length SECTORS = 10" by (simp add: SECTORS_def)
  show "distinct SECTORS" by (rule distinct_SECTORS)
qed

theorem classifySector_fallback_total_witness:
  "list_all is_whitespace [CHR 0x20, CHR 0x09, CHR 0x20] \<and>
   classifySector (Some [CHR 0x20, CHR 0x09, CHR 0x20]) = ''Other'' \<and>
   list_all (\<lambda>s. \<not> sector_hit ''Miscellaneous'' s) SECTORS \<and>
   classifySector (Some ''Miscellaneous'') = ''Other''"
proof -
  have h1: "list_all is_whitespace [CHR 0x20, CHR 0x09, CHR 0x20]" by (simp add: is_whitespace_def)
  have h2: "list_all (\<lambda>s. \<not> sector_hit ''Miscellaneous'' s) SECTORS" by code_simp
  note r = classifySector_fallback_total [of "[CHR 0x20, CHR 0x09, CHR 0x20]" "''Miscellaneous''"]
  note c1 = r [THEN conjunct2, THEN conjunct2, THEN conjunct1, THEN mp, OF h1]
  note c2 = r [THEN conjunct2, THEN conjunct2, THEN conjunct2, THEN conjunct1, THEN mp, OF h2]
  from h1 c1 h2 c2 show ?thesis by (intro conjI)
qed

section \<open>Properties of the aggregation and the merge\<close>



lemma fold_write:
  "fold (\<lambda>s m. m(s \<mapsto> f s)) xs m k = (if k \<in> set xs then Some (f k) else m k)"
  by (induction xs arbitrary: m) auto

lemma fold_fill:
  "fold (\<lambda>s m. if m s = None then m(s \<mapsto> v) else m) xs m k =
     (case m k of Some w \<Rightarrow> Some w | None \<Rightarrow> if k \<in> set xs then Some v else None)"
  by (induction xs arbitrary: m) (auto split: option.splits)

lemma sum_list_pick_none:
  "a \<notin> set ks \<Longrightarrow> sum_list (map (\<lambda>k. if a = k then (v::real) else 0) ks) = 0"
  by (induction ks) auto

lemma sum_list_pick:
  "distinct ks \<Longrightarrow> a \<in> set ks \<Longrightarrow> sum_list (map (\<lambda>k. if a = k then (v::real) else 0) ks) = v"
  by (induction ks) (auto simp: sum_list_pick_none)


text \<open>
  Rounding.  One rounding moves a real \<open>x\<close> by at most \<open>\<bar>x\<bar> / 2 ^ 53 + tiny / 2\<close>, and by
  at most \<open>\<bar>x\<bar> / 2 ^ 53\<close> when \<open>x\<close> is a sum of two binary64 values.  A running sum of
  \<open>n\<close> non-negative values therefore stays within the factors
  \<open>(1 - unit_roundoff) ^ n\<close> and \<open>(1 + unit_roundoff) ^ n\<close> of the exact sum.
\<close>

lemma rne_err: "\<bar>of_int (rne y) - y\<bar> \<le> 1 / 2"
  unfolding rne_def Let_def by (auto split: if_splits)

lemma rne_int [simp]: "rne (of_int k) = k"
  by (simp add: rne_def)

lemma rne_nonneg: "0 \<le> y \<Longrightarrow> 0 \<le> rne y"
  unfolding rne_def Let_def by (auto split: if_splits)

lemma powi_nonneg_exp: "0 \<le> b \<Longrightarrow> (2::real) powi b = 2 ^ nat b"
  by (simp add: power_int_def)

lemma powi_neg_exp: "0 \<le> b \<Longrightarrow> (2::real) powi (- b) = 1 / 2 ^ nat b"
  by (simp add: power_int_minus powi_nonneg_exp inverse_eq_divide)

lemma expo_bounds:
  assumes "x \<noteq> 0"
  shows "2 powi (expo x) \<le> \<bar>x\<bar>" and "\<bar>x\<bar> < 2 powi (expo x + 1)"
proof -
  show "2 powi (expo x) \<le> \<bar>x\<bar>"
  proof (cases "1 \<le> \<bar>x\<bar>")
    case True
    let ?n = "\<lfloor>\<bar>x\<bar>\<rfloor>"
    from True have n: "0 < ?n" by linarith
    from bitlen_bounds[OF n] have "2 ^ nat (bitlen ?n - 1) \<le> ?n" by simp
    then have "(2::real) ^ nat (bitlen ?n - 1) \<le> of_int ?n"
      by (metis of_int_le_iff of_int_numeral of_int_power)
    also have "\<dots> \<le> \<bar>x\<bar>" by linarith
    finally have "(2::real) ^ nat (bitlen ?n - 1) \<le> \<bar>x\<bar>" .
    moreover from n have "bitlen ?n - 1 \<ge> 0" by (simp add: bitlen_alt_def)
    ultimately show ?thesis using True by (simp add: expo_def powi_nonneg_exp)
  next
    case False
    let ?y = "1 / \<bar>x\<bar>"
    let ?n = "\<lceil>?y\<rceil> - 1"
    from False assms have y1: "1 < ?y" by simp
    then have n: "0 < ?n" by linarith
    from bitlen_bounds[OF n] have "?n < 2 ^ nat (bitlen ?n)" by simp
    then have "?n + 1 \<le> 2 ^ nat (bitlen ?n)" by simp
    then have "of_int (?n + 1) \<le> (2::real) ^ nat (bitlen ?n)"
      by (metis of_int_le_iff of_int_numeral of_int_power)
    moreover have "?y \<le> of_int (?n + 1)" by simp
    ultimately have "?y \<le> (2::real) ^ nat (bitlen ?n)" by linarith
    then have "1 / (2::real) ^ nat (bitlen ?n) \<le> \<bar>x\<bar>"
      using assms by (simp add: field_simps)
    moreover have "bitlen ?n \<ge> 0" by (rule bitlen_nonneg)
    ultimately show ?thesis using False
      by (simp only: expo_def if_False powi_neg_exp)
  qed
  show "\<bar>x\<bar> < 2 powi (expo x + 1)"
  proof (cases "1 \<le> \<bar>x\<bar>")
    case True
    let ?n = "\<lfloor>\<bar>x\<bar>\<rfloor>"
    from True have n: "0 < ?n" by linarith
    from bitlen_bounds[OF n] have "?n < 2 ^ nat (bitlen ?n)" by simp
    then have "?n + 1 \<le> 2 ^ nat (bitlen ?n)" by simp
    then have "of_int (?n + 1) \<le> (2::real) ^ nat (bitlen ?n)"
      by (metis of_int_le_iff of_int_numeral of_int_power)
    moreover have "\<bar>x\<bar> < of_int (?n + 1)" by linarith
    ultimately have "\<bar>x\<bar> < (2::real) ^ nat (bitlen ?n)" by linarith
    moreover have "bitlen ?n \<ge> 0" by (rule bitlen_nonneg)
    moreover have "bitlen ?n - 1 + 1 = bitlen ?n" by simp
    ultimately show ?thesis using True by (simp only: expo_def if_True powi_nonneg_exp)
  next
    case False
    let ?y = "1 / \<bar>x\<bar>"
    let ?n = "\<lceil>?y\<rceil> - 1"
    from False assms have y1: "1 < ?y" by simp
    then have n: "0 < ?n" by linarith
    from n have b1: "bitlen ?n \<ge> 1" by (simp add: bitlen_alt_def)
    from bitlen_bounds[OF n] have "2 ^ nat (bitlen ?n - 1) \<le> ?n" by simp
    then have "(2::real) ^ nat (bitlen ?n - 1) \<le> of_int ?n"
      by (metis of_int_le_iff of_int_numeral of_int_power)
    moreover have "of_int ?n < ?y" by linarith
    ultimately have "(2::real) ^ nat (bitlen ?n - 1) < ?y" by linarith
    then have "\<bar>x\<bar> < 1 / (2::real) ^ nat (bitlen ?n - 1)"
      using assms by (simp add: field_simps)
    moreover have "- bitlen ?n + 1 = - (bitlen ?n - 1)" by simp
    moreover from b1 have "0 \<le> bitlen ?n - 1" by simp
    ultimately show ?thesis using False
      by (simp only: expo_def if_False powi_neg_exp)
  qed
qed

lemma tiny_pos: "0 < tiny"
  by (simp add: tiny_def)

lemma on_grid_iff: "on_grid x \<longleftrightarrow> (\<exists>k::int. x = of_int k * tiny)"
proof
  assume "on_grid x"
  then have "x = of_int \<lfloor>x / tiny\<rfloor> * tiny" by (simp add: on_grid_def)
  then show "\<exists>k::int. x = of_int k * tiny" ..
next
  assume "\<exists>k::int. x = of_int k * tiny"
  then obtain k :: int where k: "x = of_int k * tiny" ..
  have "tiny \<noteq> 0" using tiny_pos by simp
  with k have "x / tiny = of_int k" by simp
  then have "\<lfloor>x / tiny\<rfloor> = k" by simp
  with k show "on_grid x" by (simp add: on_grid_def)
qed

lemma ulp_exp_small: "\<not> - 1074 \<le> expo x - 52 \<Longrightarrow> 2 powi (ulp_exp x) = tiny"
  by (simp add: ulp_exp_def tiny_def max_def)

lemma powi_pos [simp]: "0 < (2::real) powi s"
  by simp

lemma powi_split: "(2::real) powi (a + b) = 2 powi a * 2 powi b"
  by (simp add: power_int_add)

lemma round64_diff:
  assumes "x \<noteq> 0"
  shows "\<bar>round64 x - x\<bar> \<le> 2 powi (ulp_exp x) / 2"
proof -
  let ?P = "(2::real) powi (ulp_exp x)"
  have P: "0 < ?P" by simp
  have "round64 x - x = (of_int (rne (x / ?P)) - x / ?P) * ?P"
    using assms by (simp add: round64_def field_simps)
  then have "\<bar>round64 x - x\<bar> = \<bar>of_int (rne (x / ?P)) - x / ?P\<bar> * ?P"
    by (simp add: abs_mult)
  also have "\<dots> \<le> (1 / 2) * ?P"
    using rne_err[of "x / ?P"] P by (intro mult_right_mono) simp_all
  finally show ?thesis by simp
qed

lemma half_ulp_normal:
  assumes "x \<noteq> 0"
  shows "2 powi (expo x - 52) / 2 \<le> \<bar>x\<bar> / 2 ^ 53"
proof -
  have "(2::real) powi (expo x - 52) = 2 powi (expo x) * 2 powi (- 52)"
    using powi_split[of "expo x" "- 52"] by simp
  also have "(2::real) powi (- 52) = 1 / 2 ^ 52"
  proof -
    have "(2::real) powi (- 52) = 1 / 2 ^ nat 52" by (rule powi_neg_exp) simp
    then show ?thesis by (simp only: nat_numeral)
  qed
  finally have "(2::real) powi (expo x - 52) / 2 = 2 powi (expo x) / 2 ^ 53" by simp
  also have "\<dots> \<le> \<bar>x\<bar> / 2 ^ 53"
    using expo_bounds(1)[OF assms] by (simp add: divide_right_mono)
  finally show ?thesis .
qed

lemma round64_err: "\<bar>round64 x - x\<bar> \<le> \<bar>x\<bar> / 2 ^ 53 + tiny / 2"
proof (cases "x = 0")
  case True
  then show ?thesis using tiny_pos by (simp add: round64_def)
next
  case False
  show ?thesis
  proof (cases "- 1074 \<le> expo x - 52")
    case True
    then have "ulp_exp x = expo x - 52" by (simp add: ulp_exp_def)
    with round64_diff[OF False] half_ulp_normal[OF False]
    have "\<bar>round64 x - x\<bar> \<le> \<bar>x\<bar> / 2 ^ 53" by simp
    with tiny_pos show ?thesis by linarith
  next
    case False2: False
    from round64_diff[OF False] ulp_exp_small[OF False2]
    have "\<bar>round64 x - x\<bar> \<le> tiny / 2" by simp
    moreover have "0 \<le> \<bar>x\<bar> / 2 ^ 53" by simp
    ultimately show ?thesis by linarith
  qed
qed

lemma round64_err_grid:
  assumes "on_grid x"
  shows "\<bar>round64 x - x\<bar> \<le> \<bar>x\<bar> / 2 ^ 53"
proof (cases "x = 0")
  case True
  then show ?thesis by (simp add: round64_def)
next
  case False
  show ?thesis
  proof (cases "- 1074 \<le> expo x - 52")
    case True
    then have "ulp_exp x = expo x - 52" by (simp add: ulp_exp_def)
    with round64_diff[OF False] half_ulp_normal[OF False]
    show ?thesis by simp
  next
    case False2: False
    note s = ulp_exp_small[OF False2]
    from assms obtain k :: int where k: "x = of_int k * tiny"
      by (auto simp: on_grid_iff)
    with tiny_pos have "x / tiny = of_int k" by simp
    then have r: "rne (x / tiny) = k" by simp
    have "round64 x = of_int (rne (x / tiny)) * tiny"
      using False by (simp only: round64_def s if_False)
    with r k have "round64 x = x" by simp
    then show ?thesis by simp
  qed
qed

lemma round64_grid: "on_grid (round64 x)"
proof (cases "x = 0")
  case True
  have "(0::real) = of_int 0 * tiny" by simp
  then show ?thesis using True unfolding on_grid_iff round64_def by auto
next
  case False
  let ?s = "ulp_exp x"
  have s: "?s + 1074 \<ge> 0" by (simp add: ulp_exp_def)
  have "(2::real) powi ?s = 2 powi (?s + 1074) * tiny"
    using powi_split[of "?s + 1074" "- 1074"] by (simp add: tiny_def)
  also have "(2::real) powi (?s + 1074) = of_int (2 ^ nat (?s + 1074))"
    using s by (simp add: powi_nonneg_exp)
  finally have "round64 x = of_int (rne (x / 2 powi ?s) * 2 ^ nat (?s + 1074)) * tiny"
    using False by (simp add: round64_def)
  then show ?thesis unfolding on_grid_iff by blast
qed

lemma round64_nonneg: "0 \<le> x \<Longrightarrow> 0 \<le> round64 x"
  by (simp add: round64_def rne_nonneg)

lemma grid_zero: "on_grid 0"
  unfolding on_grid_iff by (rule exI[of _ 0]) simp

lemma grid_add: "on_grid a \<Longrightarrow> on_grid b \<Longrightarrow> on_grid (a + b)"
proof -
  assume "on_grid a" "on_grid b"
  then obtain k l :: int where "a = of_int k * tiny" "b = of_int l * tiny"
    by (auto simp: on_grid_iff)
  then have "a + b = of_int (k + l) * tiny" by (simp add: algebra_simps)
  then show ?thesis unfolding on_grid_iff by blast
qed

lemma u_pos: "0 < unit_roundoff" and u_le: "unit_roundoff \<le> 1 / 1000"
  by (simp_all add: unit_roundoff_def)

lemma round64_rel:
  assumes "on_grid x" and "0 \<le> x"
  shows "x * (1 - unit_roundoff) \<le> round64 x" and "round64 x \<le> x * (1 + unit_roundoff)"
proof -
  from round64_err_grid[OF assms(1)] assms(2)
  have "\<bar>round64 x - x\<bar> \<le> x * unit_roundoff" by (simp add: unit_roundoff_def)
  then show "x * (1 - unit_roundoff) \<le> round64 x" "round64 x \<le> x * (1 + unit_roundoff)"
    by (simp_all add: algebra_simps abs_le_iff)
qed

lemma float_sum_Cons: "float_sum a (d # ds) = float_sum (round64 (a + d)) ds"
  by (simp add: float_sum_def)

lemma float_sum_bounds:
  assumes "\<forall>d\<in>set ds. 0 \<le> d \<and> on_grid d" and "0 \<le> a" and "on_grid a"
  shows "(a + sum_list ds) * (1 - unit_roundoff) ^ length ds \<le> float_sum a ds \<and>
         float_sum a ds \<le> (a + sum_list ds) * (1 + unit_roundoff) ^ length ds \<and>
         0 \<le> float_sum a ds \<and> on_grid (float_sum a ds)"
  using assms
proof (induction ds arbitrary: a)
  case Nil
  then show ?case by (simp add: float_sum_def)
next
  case (Cons d ds)
  let ?u = unit_roundoff
  let ?a' = "round64 (a + d)"
  let ?S = "sum_list ds"
  from Cons.prems have d: "0 \<le> d" "on_grid d" and rest: "\<forall>d\<in>set ds. 0 \<le> d \<and> on_grid d" by auto
  from rest have S: "0 \<le> ?S" by (simp add: sum_list_nonneg)
  from d Cons.prems have g: "on_grid (a + d)" and n: "0 \<le> a + d" by (simp_all add: grid_add)
  from round64_rel[OF g n] have lo: "(a + d) * (1 - ?u) \<le> ?a'" and hi: "?a' \<le> (a + d) * (1 + ?u)" .
  have a'0: "0 \<le> ?a'" using n by (rule round64_nonneg)
  have a'g: "on_grid ?a'" by (rule round64_grid)
  from Cons.IH[OF rest a'0 a'g]
  have ih1: "(?a' + ?S) * (1 - ?u) ^ length ds \<le> float_sum ?a' ds"
    and ih2: "float_sum ?a' ds \<le> (?a' + ?S) * (1 + ?u) ^ length ds"
    and ih3: "0 \<le> float_sum ?a' ds" and ih4: "on_grid (float_sum ?a' ds)" by simp_all
  have u0: "0 \<le> ?u" "?u \<le> 1" using u_pos u_le by simp_all
  have p1: "0 \<le> (1 - ?u) ^ length ds" using u0 by simp
  have p2: "0 \<le> (1 + ?u) ^ length ds" using u0 by simp
  have "(a + d + ?S) * (1 - ?u) \<le> ?a' + ?S"
  proof -
    have "(a + d + ?S) * (1 - ?u) = (a + d) * (1 - ?u) + ?S * (1 - ?u)" by (simp add: algebra_simps)
    moreover have "?S * (1 - ?u) \<le> ?S" using S u0 by (simp add: mult_left_le)
    ultimately show ?thesis using lo by linarith
  qed
  then have "(a + d + ?S) * (1 - ?u) * (1 - ?u) ^ length ds \<le> (?a' + ?S) * (1 - ?u) ^ length ds"
    using p1 by (rule mult_right_mono)
  with ih1 have L: "(a + d + ?S) * (1 - ?u) ^ length (d # ds) \<le> float_sum ?a' ds"
    by (simp add: mult.assoc)
  have "?a' + ?S \<le> (a + d + ?S) * (1 + ?u)"
  proof -
    have "(a + d + ?S) * (1 + ?u) = (a + d) * (1 + ?u) + ?S * (1 + ?u)" by (simp add: algebra_simps)
    moreover have "?S \<le> ?S * (1 + ?u)" using S u0 by (simp add: mult_left_le algebra_simps)
    ultimately show ?thesis using hi by linarith
  qed
  then have "(?a' + ?S) * (1 + ?u) ^ length ds \<le> (a + d + ?S) * (1 + ?u) * (1 + ?u) ^ length ds"
    using p2 by (rule mult_right_mono)
  with ih2 have U: "float_sum ?a' ds \<le> (a + d + ?S) * (1 + ?u) ^ length (d # ds)"
    by (simp add: mult.assoc)
  from L U ih3 ih4 show ?case by (simp add: float_sum_Cons add.assoc)
qed

lemma tiny_le: "tiny \<le> 1 / 2 ^ 100"
proof -
  have "tiny = 1 / 2 ^ nat 1074" unfolding tiny_def by (rule powi_neg_exp) simp
  then have "tiny = 1 / 2 ^ 1074" by (simp only: nat_numeral)
  moreover have "(2::real) ^ 100 \<le> 2 ^ 1074" by (rule power_increasing) simp_all
  ultimately show ?thesis by (simp add: frac_le)
qed

lemma bound_numeric: "(4 * 10 ^ 6 * 10 ^ 300 :: real) < overflow_bound"
  by (simp add: overflow_bound_def)

lemma value_bound_ge: "(2::real) \<le> 10 ^ 300"
proof -
  have "(10::real) ^ 1 \<le> 10 ^ 300" by (rule power_increasing) simp_all
  then show ?thesis by simp
qed

lemma fl_Fin: "0 \<le> x \<Longrightarrow> round64 x < overflow_bound \<Longrightarrow> fl x = Fin (round64 x)"
proof -
  assume x: "0 \<le> x" and b: "round64 x < overflow_bound"
  from x have "0 \<le> round64 x" by (rule round64_nonneg)
  moreover have "0 < overflow_bound" by (simp add: overflow_bound_def)
  ultimately have "\<not> round64 x \<le> - overflow_bound" by linarith
  with b show ?thesis by (simp add: fl_def Let_def)
qed

lemma round64_abs_le:
  assumes "0 \<le> x"
  shows "round64 x \<le> x * (1 + unit_roundoff) + tiny / 2"
proof -
  from round64_err[of x] assms have "\<bar>round64 x - x\<bar> \<le> x * unit_roundoff + tiny / 2"
    by (simp add: unit_roundoff_def)
  then show ?thesis by (simp add: algebra_simps abs_le_iff)
qed

lemma decoded_props:
  assumes "value_ok h"
  shows "number_or_zero (fair_value64 h) = Fin (decoded h)" and "0 \<le> decoded h"
    and "on_grid (decoded h)" and "decoded h \<le> 2 * 10 ^ 300"
proof -
  define B :: real where "B = 10 ^ 300"
  let ?v = "or_zero (fair_value h)"
  from assms have v: "0 \<le> ?v" "?v \<le> B" by (simp_all add: value_ok_def B_def)
  have B2: "2 \<le> B" unfolding B_def by (rule value_bound_ge)
  have "4 * 10 ^ 6 * B < overflow_bound" unfolding B_def by (rule bound_numeric)
  then have Bob: "4000000 * B < overflow_bound" by simp
  show d0: "0 \<le> decoded h" unfolding decoded_def using v(1) by (rule round64_nonneg)
  show "on_grid (decoded h)" unfolding decoded_def by (rule round64_grid)
  have "?v * (1 + unit_roundoff) \<le> B * (1 + 1 / 1000)"
    using v u_pos u_le by (intro mult_mono) simp_all
  moreover have "tiny / 2 \<le> 1" using tiny_le by simp
  ultimately have "?v * (1 + unit_roundoff) + tiny / 2 \<le> 2 * B" using B2 by simp
  with round64_abs_le[OF v(1)] have le: "round64 ?v \<le> 2 * B" by linarith
  then show "decoded h \<le> 2 * 10 ^ 300" unfolding decoded_def B_def .
  from le Bob B2 have lt: "round64 ?v < overflow_bound" by linarith
  show "number_or_zero (fair_value64 h) = Fin (decoded h)"
  proof (cases "fair_value h")
    case None
    then show ?thesis by (simp add: fair_value64_def decoded_def or_zero_def round64_def)
  next
    case (Some x)
    with v(1) lt have "fl x = Fin (round64 x)" by (intro fl_Fin) (simp_all add: or_zero_def)
    with Some show ?thesis by (simp add: fair_value64_def decoded_def or_zero_def)
  qed
qed

lemma step_bound:
  assumes "0 \<le> a" "0 \<le> d" "0 \<le> S" "on_grid a" "on_grid d"
    and "(a + d + S) * (1 + unit_roundoff) ^ Suc n < overflow_bound"
  shows "round64 (a + d) < overflow_bound"
    and "(round64 (a + d) + S) * (1 + unit_roundoff) ^ n < overflow_bound"
proof -
  let ?u = unit_roundoff
  have u0: "0 \<le> ?u" using u_pos by simp
  have g: "on_grid (a + d)" using assms by (simp add: grid_add)
  from round64_rel(2)[OF g] assms have hi: "round64 (a + d) \<le> (a + d) * (1 + ?u)" by simp
  have p: "0 \<le> (1 + ?u) ^ n" "1 \<le> (1 + ?u) ^ n" using u0 by (simp_all add: one_le_power)
  have "round64 (a + d) + S \<le> (a + d + S) * (1 + ?u)"
  proof -
    have "(a + d + S) * (1 + ?u) = (a + d) * (1 + ?u) + S * (1 + ?u)" by (simp add: algebra_simps)
    moreover have "S \<le> S * (1 + ?u)" using assms(3) u0 by (simp add: algebra_simps)
    ultimately show ?thesis using hi by linarith
  qed
  then have "(round64 (a + d) + S) * (1 + ?u) ^ n \<le> (a + d + S) * (1 + ?u) * (1 + ?u) ^ n"
    using p(1) by (rule mult_right_mono)
  with assms(6) show 2: "(round64 (a + d) + S) * (1 + unit_roundoff) ^ n < overflow_bound"
    by (simp add: mult.assoc)
  have r0: "0 \<le> round64 (a + d)" using assms by (intro round64_nonneg) simp
  have "round64 (a + d) \<le> (round64 (a + d) + S) * 1" using assms(3) by simp
  also have "\<dots> \<le> (round64 (a + d) + S) * (1 + ?u) ^ n"
    using p(2) r0 assms(3) by (intro mult_left_mono) simp_all
  finally show "round64 (a + d) < overflow_bound" using 2 by linarith
qed

lemma foldl_add_Fin:
  assumes "\<forall>d\<in>set ds. 0 \<le> d \<and> on_grid d" and "0 \<le> a" and "on_grid a"
    and "(a + sum_list ds) * (1 + unit_roundoff) ^ length ds < overflow_bound"
  shows "foldl (\<lambda>s d. js_add s (Fin d)) (Fin a) ds = Fin (float_sum a ds)"
  using assms
proof (induction ds arbitrary: a)
  case Nil
  then show ?case by (simp add: float_sum_def)
next
  case (Cons d ds)
  from Cons.prems have d: "0 \<le> d" "on_grid d" and rest: "\<forall>d\<in>set ds. 0 \<le> d \<and> on_grid d" by auto
  from rest have S: "0 \<le> sum_list ds" by (simp add: sum_list_nonneg)
  from Cons.prems(4) have b: "(a + d + sum_list ds) * (1 + unit_roundoff) ^ Suc (length ds) < overflow_bound"
    by (simp add: add.assoc)
  note sb = step_bound[OF Cons.prems(2) d(1) S Cons.prems(3) d(2) b]
  from Cons.prems(2) d(1) have "0 \<le> a + d" by simp
  with sb(1) have f: "js_add (Fin a) (Fin d) = Fin (round64 (a + d))" by (simp add: fl_Fin)
  have "0 \<le> round64 (a + d)" using Cons.prems(2) d(1) by (intro round64_nonneg) simp
  from Cons.IH[OF rest this round64_grid sb(2)] f show ?case by (simp add: float_sum_Cons)
qed

lemma total_of64_Fin:
  assumes "\<forall>h\<in>set L. value_ok h"
    and "sum_list (map decoded L) * (1 + unit_roundoff) ^ length L < overflow_bound"
  shows "total_of64 L = Fin (float_sum 0 (map decoded L))"
proof -
  have "foldl (\<lambda>sum h. js_add sum (number_or_zero (fair_value64 h))) x L =
        foldl (\<lambda>s d. js_add s (Fin d)) x (map decoded L)" for x
    using assms(1) by (induction L arbitrary: x) (simp_all add: decoded_props(1))
  moreover have "foldl (\<lambda>s d. js_add s (Fin d)) (Fin 0) (map decoded L) = Fin (float_sum 0 (map decoded L))"
    using assms by (intro foldl_add_Fin) (auto simp: decoded_props grid_zero)
  ultimately show ?thesis by (simp add: total_of64_def)
qed

lemma sector_totals64_Fin:
  assumes "\<forall>h\<in>set L. value_ok h"
    and "\<forall>k. number_or_zero (m k) = Fin (a k) \<and> 0 \<le> a k \<and> on_grid (a k)"
    and "\<forall>k. (a k + sum_list (map decoded L)) * (1 + unit_roundoff) ^ length L < overflow_bound"
  shows "number_or_zero (foldl add_holding64 m L k) =
           Fin (float_sum (a k) (map decoded (filter (\<lambda>h. holding_sector h = k) L)))"
  using assms
proof (induction L arbitrary: m a)
  case Nil
  then show ?case by (simp add: float_sum_def)
next
  case (Cons h L)
  let ?s = "holding_sector h"
  let ?r = "round64 (a ?s + decoded h)"
  let ?a1 = "a(?s := ?r)"
  from Cons.prems(1) have ok: "value_ok h" and rest: "\<forall>h\<in>set L. value_ok h" by auto
  note dp = decoded_props[OF ok]
  from rest have S: "0 \<le> sum_list (map decoded L)"
    by (intro sum_list_nonneg) (auto simp: decoded_props(2))
  have as: "0 \<le> a ?s" "on_grid (a ?s)" "number_or_zero (m ?s) = Fin (a ?s)"
    using Cons.prems(2) by simp_all
  have b: "(a k + decoded h + sum_list (map decoded L)) * (1 + unit_roundoff) ^ Suc (length L) < overflow_bound" for k
    using Cons.prems(3) by (simp add: add.assoc)
  note sb = step_bound[OF as(1) dp(2) S as(2) dp(3) b[of ?s]]
  from as(1) dp(2) have n0: "0 \<le> a ?s + decoded h" by simp
  with sb(1) have f: "fl (a ?s + decoded h) = Fin ?r" by (simp add: fl_Fin)
  have m1: "add_holding64 m h = m(?s \<mapsto> Fin ?r)"
    by (simp add: add_holding64_def as(3) dp(1) f)
  have r0: "0 \<le> ?r" using n0 by (rule round64_nonneg)
  have inv: "\<forall>k. number_or_zero ((m(?s \<mapsto> Fin ?r)) k) = Fin (?a1 k) \<and> 0 \<le> ?a1 k \<and> on_grid (?a1 k)"
    using Cons.prems(2) r0 round64_grid by auto
  have bnd: "\<forall>k. (?a1 k + sum_list (map decoded L)) * (1 + unit_roundoff) ^ length L < overflow_bound"
  proof
    fix k
    show "(?a1 k + sum_list (map decoded L)) * (1 + unit_roundoff) ^ length L < overflow_bound"
    proof (cases "k = ?s")
      case True
      with sb(2) show ?thesis by simp
    next
      case False
      have u0: "0 \<le> unit_roundoff" using u_pos by simp
      have ak: "0 \<le> a k" using Cons.prems(2) by simp
      have "(a k + sum_list (map decoded L)) * (1 + unit_roundoff) ^ length L
            \<le> (a k + decoded h + sum_list (map decoded L)) * (1 + unit_roundoff) ^ length L"
        using dp(2) u0 by (intro mult_right_mono) simp_all
      also have "\<dots> \<le> (a k + decoded h + sum_list (map decoded L)) * (1 + unit_roundoff) ^ Suc (length L)"
        using ak dp(2) S u0 by (intro mult_left_mono power_increasing) simp_all
      finally show ?thesis using b[of k] False by simp
    qed
  qed
  from Cons.IH[OF rest inv bnd]
  have "number_or_zero (foldl add_holding64 (m(?s \<mapsto> Fin ?r)) L k) =
          Fin (float_sum (?a1 k) (map decoded (filter (\<lambda>h. holding_sector h = k) L)))" .
  then show ?case by (simp add: m1 float_sum_Cons)
qed

lemma round64_abs_ge:
  assumes "0 \<le> x"
  shows "x * (1 - unit_roundoff) - tiny / 2 \<le> round64 x"
proof -
  from round64_err[of x] assms have "\<bar>round64 x - x\<bar> \<le> x * unit_roundoff + tiny / 2"
    by (simp add: unit_roundoff_def)
  then show ?thesis by (simp add: algebra_simps abs_le_iff)
qed

lemma overflow_bound_big: "10000 < overflow_bound"
proof -
  have "(2::real) ^ 14 \<le> 2 ^ 1024" by (rule power_increasing) simp_all
  then show ?thesis by (simp add: overflow_bound_def)
qed

lemma percent64_bounds:
  assumes "0 \<le> s" and "0 < t"
  shows "100 * (s / t) * (1 - unit_roundoff)\<^sup>2 - 101 * tiny \<le> percent64 s t"
    and "percent64 s t \<le> 100 * (s / t) * (1 + unit_roundoff)\<^sup>2 + 101 * tiny"
    and "0 \<le> round64 (s / t)"
    and "round64 (s / t) \<le> (s / t) * (1 + unit_roundoff) + tiny / 2"
proof -
  let ?u = unit_roundoff
  let ?x = "s / t"
  let ?q = "round64 ?x"
  have x0: "0 \<le> ?x" using assms by simp
  have u0: "0 \<le> ?u" "?u \<le> 1" using u_pos u_le by simp_all
  have t0: "0 \<le> tiny" using tiny_pos by simp
  show q0: "0 \<le> ?q" using x0 by (rule round64_nonneg)
  show qhi: "?q \<le> ?x * (1 + ?u) + tiny / 2" using x0 by (rule round64_abs_le)
  have qlo: "?x * (1 - ?u) - tiny / 2 \<le> ?q" using x0 by (rule round64_abs_ge)
  have q100: "0 \<le> ?q * 100" using q0 by simp
  have phi: "percent64 s t \<le> ?q * 100 * (1 + ?u) + tiny / 2"
    unfolding percent64_def using q100 by (rule round64_abs_le)
  have plo: "?q * 100 * (1 - ?u) - tiny / 2 \<le> percent64 s t"
    unfolding percent64_def using q100 by (rule round64_abs_ge)
  have "?q * 100 * (1 + ?u) \<le> (?x * (1 + ?u) + tiny / 2) * 100 * (1 + ?u)"
    using qhi u0 by (intro mult_right_mono) simp_all
  also have "\<dots> = 100 * ?x * (1 + ?u)\<^sup>2 + 50 * tiny * (1 + ?u)"
    by (simp add: power2_eq_square algebra_simps)
  also have "50 * tiny * (1 + ?u) \<le> 50 * tiny * 2"
    using u0 t0 by (intro mult_left_mono) simp_all
  finally have "?q * 100 * (1 + ?u) \<le> 100 * ?x * (1 + ?u)\<^sup>2 + 100 * tiny" by simp
  with phi t0 show "percent64 s t \<le> 100 * (s / t) * (1 + ?u)\<^sup>2 + 101 * tiny" by linarith
  have "(?x * (1 - ?u) - tiny / 2) * 100 * (1 - ?u) \<le> ?q * 100 * (1 - ?u)"
    using qlo u0 by (intro mult_right_mono) simp_all
  moreover have "(?x * (1 - ?u) - tiny / 2) * 100 * (1 - ?u) = 100 * ?x * (1 - ?u)\<^sup>2 - 50 * tiny * (1 - ?u)"
    by (simp add: power2_eq_square algebra_simps)
  moreover have "50 * tiny * (1 - ?u) \<le> 50 * tiny * 1"
    using u0 t0 by (intro mult_left_mono) simp_all
  ultimately have "100 * ?x * (1 - ?u)\<^sup>2 - 50 * tiny \<le> ?q * 100 * (1 - ?u)" by linarith
  with plo t0 show "100 * (s / t) * (1 - ?u)\<^sup>2 - 101 * tiny \<le> percent64 s t" by linarith
qed

lemma percent64_Fin:
  assumes "0 \<le> s" and "0 < t" and "s / t \<le> 4"
  shows "js_mul (js_div (Fin s) (Fin t)) (Fin 100) = Fin (percent64 s t)"
proof -
  let ?q = "round64 (s / t)"
  note b = percent64_bounds[OF assms(1,2)]
  have u: "0 \<le> unit_roundoff" "unit_roundoff \<le> 1" using u_pos u_le by simp_all
  have t1: "tiny \<le> 1" using tiny_le by (simp add: order_trans[OF tiny_le])
  have "(s / t) * (1 + unit_roundoff) \<le> 4 * 2"
    using assms u by (intro mult_mono) simp_all
  with b(4) t1 have q8: "?q \<le> 9" by linarith
  with overflow_bound_big have "?q < overflow_bound" by linarith
  moreover have x0: "0 \<le> s / t" using assms by simp
  ultimately have d: "fl (s / t) = Fin ?q" by (intro fl_Fin)
  have "round64 (?q * 100) \<le> ?q * 100 * (1 + unit_roundoff) + tiny / 2"
    using b(3) by (intro round64_abs_le) simp
  moreover have "?q * 100 * (1 + unit_roundoff) \<le> 9 * 100 * 2"
    using q8 b(3) u by (intro mult_mono) simp_all
  ultimately have "round64 (?q * 100) < overflow_bound" using t1 overflow_bound_big
    by linarith
  then have m: "fl (?q * 100) = Fin (round64 (?q * 100))" using b(3) by (intro fl_Fin) simp_all
  from assms(2) d m show ?thesis by (simp add: percent64_def)
qed

lemma pow_upper:
  assumes "0 \<le> x" and "real m * x \<le> 1 / 2"
  shows "(1 + x) ^ m \<le> 1 + 2 * real m * x"
  using assms(2)
proof (induction m)
  case 0
  then show ?case by simp
next
  case (Suc m)
  have "real m * x \<le> real (Suc m) * x" using assms(1) by (intro mult_right_mono) simp_all
  with Suc.prems have mx: "real m * x \<le> 1 / 2" by linarith
  from Suc.IH[OF mx] have "(1 + x) ^ m * (1 + x) \<le> (1 + 2 * real m * x) * (1 + x)"
    using assms(1) by (intro mult_right_mono) simp_all
  also have "\<dots> = 1 + 2 * real m * x + x + (2 * (real m * x)) * x" by (simp add: algebra_simps)
  also have "(2 * (real m * x)) * x \<le> 1 * x"
    using mx assms(1) by (intro mult_right_mono) simp_all
  finally show ?case by (simp add: algebra_simps)
qed

lemma pow_lower:
  assumes "0 \<le> x" and "x \<le> 1"
  shows "1 - real m * x \<le> (1 - x) ^ m"
  using Bernoulli_inequality[of "- x" m] assms by simp

text \<open>The percentages of one entity: typed sectors, sums by sector, and the bound on the
  sum of the ten rounded percentages.\<close>

lemma classifySector_in_SECTORS: "classifySector x \<in> set SECTORS"
proof (cases x)
  case None
  then show ?thesis by (simp add: classifySector_def SECTORS_def)
next
  case (Some raw)
  have other: "''Other'' \<in> set SECTORS" by (simp add: SECTORS_def)
  have "scan_sectors (trim (toLowerCase raw)) SECTOR_KEYWORDS \<in> insert ''Other'' (set SECTORS)"
    using scan_sectors_range[of "trim (toLowerCase raw)" SECTOR_KEYWORDS]
    by (simp only: keys_SECTOR_KEYWORDS)
  with other Some show ?thesis by (auto simp: classifySector_Some)
qed

lemma sector_typed_holding_sector: "sector_typed h \<Longrightarrow> holding_sector h \<in> set SECTORS"
  using classifySector_in_SECTORS[of "industry_raw h"]
  by (auto simp: sector_typed_def holding_sector_def split: option.splits)

lemma sum_list_split_by_key:
  fixes f :: "'a \<Rightarrow> real"
  assumes "distinct ks" and "\<forall>h\<in>set hs. g h \<in> set ks"
  shows "sum_list (map (\<lambda>k. sum_list (map f (filter (\<lambda>h. g h = k) hs))) ks) = sum_list (map f hs)"
  using assms(2)
proof (induction hs)
  case Nil
  then show ?case by simp
next
  case (Cons h hs)
  have "sum_list (map (\<lambda>k. sum_list (map f (filter (\<lambda>h. g h = k) (h # hs)))) ks) =
        sum_list (map (\<lambda>k. (if g h = k then f h else 0) + sum_list (map f (filter (\<lambda>h. g h = k) hs))) ks)"
    by (rule arg_cong[where f=sum_list]) simp
  also have "\<dots> = sum_list (map (\<lambda>k. if g h = k then f h else 0) ks)
                 + sum_list (map (\<lambda>k. sum_list (map f (filter (\<lambda>h. g h = k) hs))) ks)"
    by (simp add: sum_list_addf)
  also have "\<dots> = f h + sum_list (map f hs)"
    using Cons assms(1) by (simp add: sum_list_pick)
  finally show ?case by simp
qed

lemma sum_list_filter_le:
  fixes f :: "'a \<Rightarrow> real"
  shows "\<forall>x\<in>set xs. 0 \<le> f x \<Longrightarrow> sum_list (map f (filter P xs)) \<le> sum_list (map f xs)"
  by (induction xs) auto

lemma sum_list_nonneg_real:
  fixes f :: "'a \<Rightarrow> real"
  shows "\<forall>x\<in>set xs. 0 \<le> f x \<Longrightarrow> 0 \<le> sum_list (map f xs)"
  by (induction xs) auto

lemma sum_list_le_length:
  fixes f :: "'a \<Rightarrow> real"
  shows "\<forall>x\<in>set xs. f x \<le> c \<Longrightarrow> sum_list (map f xs) \<le> real (length xs) * c"
  by (induction xs) (auto simp: algebra_simps)

lemma sum_list_mono_real:
  fixes f g :: "'a \<Rightarrow> real"
  shows "\<forall>x\<in>set xs. f x \<le> g x \<Longrightarrow> sum_list (map f xs) \<le> sum_list (map g xs)"
  by (induction xs) (auto intro: add_mono)

lemma sum_list_affine:
  fixes f :: "'a \<Rightarrow> real"
  shows "sum_list (map (\<lambda>k. c * f k + d) ks) = c * sum_list (map f ks) + real (length ks) * d"
  by (induction ks) (simp_all add: algebra_simps)

lemma square_roundoff:
  shows "(1 + unit_roundoff)\<^sup>2 \<le> 1 + 1 / 10 ^ 15"
    and "1 - 1 / 10 ^ 15 \<le> (1 - unit_roundoff)\<^sup>2"
  by (simp_all add: unit_roundoff_def power2_eq_square)

lemma ratio_bounds:
  fixes A C T t x :: real
  assumes "0 < T" and "T * C \<le> t" and "t \<le> T * A" and "T * C \<le> x" and "x \<le> T * A"
    and "1 \<le> A" and "A \<le> 1 + 3 / 10 ^ 10" and "1 - 2 / 10 ^ 10 \<le> C" and "C \<le> 1"
  shows "x / t \<le> 1 + 1 / 10 ^ 9" and "1 - 1 / 10 ^ 9 \<le> x / t"
proof -
  have C0: "0 < C" using assms(8) by simp
  have A0: "0 < A" using assms(6) by simp
  have TC: "0 < T * C" using assms(1) C0 by simp
  have TA: "0 < T * A" using assms(1) A0 by simp
  have t0: "0 < t" using TC assms(2) by linarith
  have x0: "0 \<le> x" using TC assms(4) by linarith
  have "x / t \<le> (T * A) / (T * C)"
    using x0 assms(5) TC assms(2) TA by (intro frac_le) simp_all
  also have "\<dots> = A / C" using assms(1) by simp
  also have "\<dots> \<le> (1 + 3 / 10 ^ 10) / (1 - 2 / 10 ^ 10)"
    using assms(6,7,8) by (intro frac_le) simp_all
  also have "\<dots> \<le> 1 + 1 / 10 ^ 9" by simp
  finally show "x / t \<le> 1 + 1 / 10 ^ 9" .
  have "1 - 1 / 10 ^ 9 \<le> (1 - 2 / 10 ^ 10) / (1 + 3 / 10 ^ 10 :: real)" by simp
  also have "\<dots> \<le> C / A"
    using assms(6,7,8) by (intro frac_le) simp_all
  also have "\<dots> = (T * C) / (T * A)" using assms(1) by simp
  also have "\<dots> \<le> x / t"
    using TC assms(4) t0 assms(3) by (intro frac_le) simp_all
  finally show "1 - 1 / 10 ^ 9 \<le> x / t" .
qed

lemma tolerance_core:
  fixes s S :: "'a \<Rightarrow> real" and ks :: "'a list" and A C T t :: real
  assumes len: "length ks = 10"
    and t0: "0 < t" and T: "T = sum_list (map S ks)"
    and tb: "T * C \<le> t" "t \<le> T * A"
    and sb: "\<forall>k\<in>set ks. 0 \<le> S k \<and> 0 \<le> s k \<and> S k * C \<le> s k \<and> s k \<le> S k * A"
    and A: "1 \<le> A" "A \<le> 1 + 3 / 10 ^ 10" and C: "1 - 2 / 10 ^ 10 \<le> C" "C \<le> 1"
  shows "\<bar>sum_list (map (\<lambda>k. percent64 (s k) t) ks) - 100\<bar> \<le> 1 / 10 ^ 6"
    and "\<forall>k\<in>set ks. s k / t \<le> 4"
proof -
  let ?u = unit_roundoff
  let ?P = "sum_list (map (\<lambda>k. percent64 (s k) t) ks)"
  let ?X = "sum_list (map s ks)"
  have C0: "0 < C" using C by simp
  have A0: "0 < A" using A by simp
  have T0: "0 < T"
  proof (rule ccontr)
    assume "\<not> 0 < T"
    then have "T * A \<le> 0" using A0 by (simp add: mult_le_0_iff)
    with tb t0 show False by linarith
  qed
  have "sum_list (map (\<lambda>k. S k * C) ks) \<le> ?X"
    using sb by (intro sum_list_mono_real) simp
  then have X1: "T * C \<le> ?X" by (simp add: T sum_list_mult_const)
  have "?X \<le> sum_list (map (\<lambda>k. S k * A) ks)"
    using sb by (intro sum_list_mono_real) simp
  then have X2: "?X \<le> T * A" by (simp add: T sum_list_mult_const)
  note r = ratio_bounds[OF T0 tb X1 X2 A C]
  have "0 < T * C" using T0 C0 by simp
  with X1 have X0: "0 \<le> ?X" by linarith
  have r0: "0 \<le> ?X / t" using X0 t0 by simp
  have tiny1: "1010 * tiny \<le> 1 / 10 ^ 7"
  proof -
    have "1010 * tiny \<le> 1010 * (1 / 2 ^ 100)" using tiny_le by (intro mult_left_mono) simp_all
    also have "\<dots> \<le> 1 / 10 ^ 7" by simp
    finally show ?thesis .
  qed
  have "?P \<le> sum_list (map (\<lambda>k. (100 * (1 + ?u)\<^sup>2 / t) * s k + 101 * tiny) ks)"
  proof (rule sum_list_mono_real, rule ballI)
    fix k assume "k \<in> set ks"
    with sb have "0 \<le> s k" by simp
    from percent64_bounds(2)[OF this t0]
    show "percent64 (s k) t \<le> (100 * (1 + ?u)\<^sup>2 / t) * s k + 101 * tiny" by (simp add: algebra_simps)
  qed
  also have "\<dots> = 100 * (?X / t) * (1 + ?u)\<^sup>2 + 1010 * tiny"
    by (subst sum_list_affine) (simp add: len)
  also have "100 * (?X / t) * (1 + ?u)\<^sup>2 \<le> 100 * (1 + 1 / 10 ^ 9) * (1 + 1 / 10 ^ 15)"
  proof (rule mult_mono)
    show "100 * (?X / t) \<le> 100 * (1 + 1 / 10 ^ 9)" by (rule mult_left_mono[OF r(1)]) simp
    show "(1 + ?u)\<^sup>2 \<le> 1 + 1 / 10 ^ 15" by (rule square_roundoff(1))
    show "(0::real) \<le> 100 * (1 + 1 / 10 ^ 9)" by simp
    show "0 \<le> (1 + ?u)\<^sup>2" by simp
  qed
  also have "\<dots> \<le> 100 + 2 / 10 ^ 7" by simp
  finally have up: "?P \<le> 100 + 1 / 10 ^ 6" using tiny1 by simp
  have "sum_list (map (\<lambda>k. (100 * (1 - ?u)\<^sup>2 / t) * s k + (- 101 * tiny)) ks) \<le> ?P"
  proof (rule sum_list_mono_real, rule ballI)
    fix k assume "k \<in> set ks"
    with sb have "0 \<le> s k" by simp
    from percent64_bounds(1)[OF this t0]
    show "(100 * (1 - ?u)\<^sup>2 / t) * s k + (- 101 * tiny) \<le> percent64 (s k) t" by (simp add: algebra_simps)
  qed
  moreover have "sum_list (map (\<lambda>k. (100 * (1 - ?u)\<^sup>2 / t) * s k + (- 101 * tiny)) ks)
                 = 100 * (?X / t) * (1 - ?u)\<^sup>2 - 1010 * tiny"
    by (subst sum_list_affine) (simp add: len)
  moreover have "100 * (1 - 1 / 10 ^ 9) * (1 - 1 / 10 ^ 15) \<le> 100 * (?X / t) * (1 - ?u)\<^sup>2"
  proof (rule mult_mono)
    show "100 * (1 - 1 / 10 ^ 9) \<le> 100 * (?X / t)" by (rule mult_left_mono[OF r(2)]) simp
    show "1 - 1 / 10 ^ 15 \<le> (1 - ?u)\<^sup>2" by (rule square_roundoff(2))
    show "0 \<le> 100 * (?X / t)" by (rule mult_nonneg_nonneg[OF _ r0]) simp
    show "(0::real) \<le> 1 - 1 / 10 ^ 15" by simp
  qed
  moreover have "100 - 2 / 10 ^ 7 \<le> 100 * (1 - 1 / 10 ^ 9) * (1 - 1 / 10 ^ 15 :: real)" by simp
  ultimately have lo: "100 - 1 / 10 ^ 6 \<le> ?P" using tiny1 by simp
  from up lo show "\<bar>?P - 100\<bar> \<le> 1 / 10 ^ 6" by (intro abs_leI) simp_all
  show "\<forall>k\<in>set ks. s k / t \<le> 4"
  proof
    fix k assume k: "k \<in> set ks"
    with sb have sk: "0 \<le> s k" "s k \<le> S k * A" "0 \<le> S k" by simp_all
    have "S k \<le> T" unfolding T using k sb
    proof -
      have "sum_list (map (\<lambda>j. if k = j then S k else 0) ks) \<le> sum_list (map S ks)"
        using sb by (intro sum_list_mono_real) simp
      moreover have "S k \<le> sum_list (map (\<lambda>j. if k = j then S k else 0) ks)"
        using k sk(3) sb by (induction ks) (auto intro: add_increasing2 sum_list_nonneg_real)
      ultimately show "S k \<le> sum_list (map S ks)" by linarith
    qed
    then have "S k * A \<le> T * A" using A0 by simp
    with sk have "s k \<le> T * A" by linarith
    moreover have "T * C \<le> T * A" using T0 C A by simp
    moreover have "0 < T * C" using T0 C0 by simp
    ultimately have "s k / t \<le> (T * A) / (T * C)"
      using sk(1) tb(1) by (intro frac_le) simp_all
    also have "\<dots> = A / C" using T0 by simp
    also have "\<dots> \<le> (1 + 3 / 10 ^ 10) / (1 - 2 / 10 ^ 10)"
      using A C by (intro frac_le) simp_all
    also have "\<dots> \<le> 4" by simp
    finally show "s k / t \<le> 4" .
  qed
qed

lemma percentages64_apply:
  "percentages64 st t k =
     (if k \<in> set SECTORS then Some (js_mul (js_div (number_or_zero (st k)) t) (Fin 100)) else None)"
  by (simp add: percentages64_def fold_write)

lemma fill_missing64_apply:
  "fill_missing64 m k =
     (case m k of Some v \<Rightarrow> Some v | None \<Rightarrow> if k \<in> set SECTORS then Some (Fin 0) else None)"
  by (simp add: fill_missing64_def fold_fill)

lemma dom_fill_missing64: "dom m \<subseteq> set SECTORS \<Longrightarrow> dom (fill_missing64 m) = set SECTORS"
  by (auto simp: fill_missing64_apply dom_def split: option.splits if_splits)

lemma dom_percentages64: "dom (percentages64 st t) = set SECTORS"
  by (auto simp: percentages64_apply dom_def split: if_splits)

lemma aggregate64_Cons:
  "aggregate64 (Some (h0 # rest)) =
     \<lparr>totalFairValue64 = total_of64 (latest_holdings (h0 # rest)),
      latestPeriod64 = period_date h0,
      sectorExposures64 =
        fill_missing64
          (if js_positive (total_of64 (latest_holdings (h0 # rest)))
           then percentages64 (sector_totals64 (latest_holdings (h0 # rest)))
                  (total_of64 (latest_holdings (h0 # rest)))
           else Map.empty)\<rparr>"
  by (simp add: aggregate64_def Let_def)

lemma aggregate64_empty:
  "q = None \<or> q = Some [] \<Longrightarrow>
   aggregate64 q = \<lparr>totalFairValue64 = Fin 0, latestPeriod64 = [], sectorExposures64 = fill_missing64 Map.empty\<rparr>"
  by (auto simp: aggregate64_def)

lemma length_SECTORS: "length SECTORS = 10"
  by (simp add: SECTORS_def)

lemma roundoff_powers:
  assumes "n \<le> 10 ^ 6"
  shows "1 \<le> (1 + unit_roundoff) ^ n" and "(1 + unit_roundoff) ^ n \<le> 1 + 3 / 10 ^ 10"
    and "1 - 2 / 10 ^ 10 \<le> (1 - unit_roundoff) ^ n" and "(1 - unit_roundoff) ^ n \<le> 1"
proof -
  let ?u = unit_roundoff
  have u: "0 \<le> ?u" "?u \<le> 1" using u_pos u_le by simp_all
  from assms have "real n \<le> 10 ^ 6" by (metis of_nat_le_iff of_nat_numeral of_nat_power)
  then have "real n * ?u \<le> 10 ^ 6 * ?u" using u by (intro mult_right_mono) simp_all
  also have "\<dots> \<le> 3 / (2 * 10 ^ 10)" by (simp add: unit_roundoff_def)
  finally have nu: "real n * ?u \<le> 3 / (2 * 10 ^ 10)" .
  then have nu2: "real n * ?u \<le> 1 / 2" by simp
  show "1 \<le> (1 + ?u) ^ n" using u by (intro one_le_power) simp
  from pow_upper[OF u(1) nu2] nu show "(1 + ?u) ^ n \<le> 1 + 3 / 10 ^ 10" by simp
  from pow_lower[OF u, of n] nu show "1 - 2 / 10 ^ 10 \<le> (1 - ?u) ^ n" by simp
  show "(1 - ?u) ^ n \<le> 1" using u by (intro power_le_one) simp_all
qed

lemma percent_exposures:
  assumes ok: "\<forall>h\<in>set L. sector_typed h \<and> value_ok h"
    and len: "length L \<le> 10 ^ 6"
    and pos: "js_positive (total_of64 L)"
  shows "sum_within_tolerance (fill_missing64 (percentages64 (sector_totals64 L) (total_of64 L)))"
proof -
  let ?u = unit_roundoff
  define n where "n = length L"
  define A where "A = (1 + ?u) ^ n"
  define C where "C = (1 - ?u) ^ n"
  define B :: real where "B = 10 ^ 300"
  define T where "T = sum_list (map decoded L)"
  define t where "t = float_sum 0 (map decoded L)"
  define part where "part k = filter (\<lambda>h. holding_sector h = k) L" for k
  define S where "S k = sum_list (map decoded (part k))" for k
  define s where "s k = float_sum 0 (map decoded (part k))" for k
  have u: "0 \<le> ?u" "?u \<le> 1" using u_pos u_le by simp_all
  have vok: "\<forall>h\<in>set L. value_ok h" using ok by simp
  have n6: "n \<le> 10 ^ 6" using len by (simp add: n_def)
  note pw = roundoff_powers[OF n6, folded A_def C_def]
  have dec: "\<forall>h\<in>set L. 0 \<le> decoded h" using vok decoded_props(2) by blast
  have T0: "0 \<le> T" unfolding T_def using dec by (rule sum_list_nonneg_real)
  have "\<forall>h\<in>set L. decoded h \<le> 2 * B" using vok decoded_props(4) by (auto simp: B_def)
  then have Tn: "T \<le> real n * (2 * B)" unfolding T_def n_def by (rule sum_list_le_length)
  have rn: "real n \<le> 10 ^ 6" using n6 by (metis of_nat_le_iff of_nat_numeral of_nat_power)
  have B0: "0 \<le> 2 * B" by (simp add: B_def)
  have "real n * (2 * B) \<le> 10 ^ 6 * (2 * B)" using rn B0 by (rule mult_right_mono)
  with Tn have T1: "T \<le> 10 ^ 6 * (2 * B)" by (rule order_trans)
  have "T * A \<le> T * 2" using T0 pw(2) by (intro mult_left_mono) simp_all
  with T1 have "T * A \<le> 4000000 * B" by simp
  moreover have "4000000 * B < overflow_bound" using bound_numeric by (simp add: B_def)
  ultimately have ov: "T * A < overflow_bound" by linarith
  have tot: "total_of64 L = Fin t"
    unfolding t_def using vok ov by (intro total_of64_Fin) (simp_all add: T_def A_def n_def)
  with pos have t0: "0 < t" by simp
  have grid: "\<forall>d\<in>set (map decoded (filter P L)). 0 \<le> d \<and> on_grid d" for P
    using vok decoded_props(2,3) by auto
  from float_sum_bounds[OF grid[of "\<lambda>h. True"] order_refl grid_zero]
  have tb: "T * C \<le> t" "t \<le> T * A"
    by (simp_all add: t_def T_def C_def A_def n_def)
  have sb: "0 \<le> S k \<and> 0 \<le> s k \<and> S k * C \<le> s k \<and> s k \<le> S k * A" for k
  proof -
    let ?m = "length (part k)"
    have m: "?m \<le> n" by (simp add: part_def n_def)
    from float_sum_bounds[OF grid[of "\<lambda>h. holding_sector h = k"] order_refl grid_zero]
    have b: "S k * (1 - ?u) ^ ?m \<le> s k" "s k \<le> S k * (1 + ?u) ^ ?m" "0 \<le> s k"
      by (simp_all add: s_def S_def part_def)
    have S0: "0 \<le> S k" unfolding S_def part_def using dec by (intro sum_list_nonneg_real) simp
    have "C \<le> (1 - ?u) ^ ?m" unfolding C_def using m u by (intro power_decreasing) simp_all
    then have "S k * C \<le> S k * (1 - ?u) ^ ?m" using S0 by (rule mult_left_mono)
    moreover have "(1 + ?u) ^ ?m \<le> A" unfolding A_def using m u by (intro power_increasing) simp_all
    then have "S k * (1 + ?u) ^ ?m \<le> S k * A" using S0 by (rule mult_left_mono)
    ultimately show ?thesis using b S0 by linarith
  qed
  have "\<forall>h\<in>set L. holding_sector h \<in> set SECTORS"
    using ok sector_typed_holding_sector by blast
  from sum_list_split_by_key[OF distinct_SECTORS this, of decoded]
  have TS: "T = sum_list (map S SECTORS)"
    unfolding T_def by (simp add: S_def part_def cong: map_cong)
  have sbk: "\<forall>k\<in>set SECTORS. 0 \<le> S k \<and> 0 \<le> s k \<and> S k * C \<le> s k \<and> s k \<le> S k * A"
    using sb by blast
  note core = tolerance_core[OF length_SECTORS t0 TS tb sbk pw(1) pw(2) pw(3) pw(4)]
  have st: "number_or_zero (sector_totals64 L k) = Fin (s k)" for k
  proof -
    have "number_or_zero (foldl add_holding64 Map.empty L k) =
            Fin (float_sum ((\<lambda>_. 0) k) (map decoded (filter (\<lambda>h. holding_sector h = k) L)))"
      using vok ov by (intro sector_totals64_Fin) (simp_all add: grid_zero T_def A_def n_def)
    then show ?thesis by (simp add: sector_totals64_def s_def part_def)
  qed
  have ex: "fill_missing64 (percentages64 (sector_totals64 L) (total_of64 L)) k = Some (Fin (percent64 (s k) t))"
    if "k \<in> set SECTORS" for k
  proof -
    from sb[of k] have "0 \<le> s k" by simp
    moreover from core(2) that have "s k / t \<le> 4" by simp
    ultimately have "js_mul (js_div (Fin (s k)) (Fin t)) (Fin 100) = Fin (percent64 (s k) t)"
      using t0 by (intro percent64_Fin)
    with that show ?thesis by (simp add: fill_missing64_apply percentages64_apply st tot)
  qed
  have fin: "list_all (\<lambda>k. finite_value (fill_missing64 (percentages64 (sector_totals64 L) (total_of64 L)) k) \<noteq> None) SECTORS"
    by (simp add: list_all_iff ex)
  have "exposure_sum64 (fill_missing64 (percentages64 (sector_totals64 L) (total_of64 L)))
          = sum_list (map (\<lambda>k. percent64 (s k) t) SECTORS)"
    unfolding exposure_sum64_def by (rule arg_cong[where f=sum_list]) (simp add: ex)
  with core(1) fin show ?thesis by (simp only: sum_within_tolerance_def simp_thms)
qed

text \<open>Evaluation of the rounding on the sample values.\<close>

lemma expo_eqI:
  assumes "2 powi k \<le> \<bar>x\<bar>" and "\<bar>x\<bar> < 2 powi (k + 1)"
  shows "expo x = k"
proof -
  have p: "0 < (2::real) powi k" by simp
  have nz: "x \<noteq> 0"
  proof
    assume "x = 0"
    with assms(1) have "(2::real) powi k \<le> 0" by simp
    with p show False by linarith
  qed
  note b = expo_bounds[OF nz]
  have "expo x < k + 1"
  proof (rule ccontr)
    assume "\<not> expo x < k + 1"
    then have "k + 1 \<le> expo x" by simp
    then have "(2::real) powi (k + 1) \<le> 2 powi (expo x)" by (intro power_int_increasing) simp_all
    with b(1) assms(2) show False by linarith
  qed
  moreover have "k < expo x + 1"
  proof (rule ccontr)
    assume "\<not> k < expo x + 1"
    then have "expo x + 1 \<le> k" by simp
    then have "(2::real) powi (expo x + 1) \<le> 2 powi k" by (intro power_int_increasing) simp_all
    with b(2) assms(1) show False by linarith
  qed
  ultimately show ?thesis by simp
qed

lemma fl_moderate: "\<bar>round64 x\<bar> < 2 ^ 100 \<Longrightarrow> fl x = Fin (round64 x)"
proof -
  assume a: "\<bar>round64 x\<bar> < 2 ^ 100"
  have "(2::real) ^ 100 \<le> 2 ^ 1024" by (rule power_increasing) simp_all
  with a have "round64 x < overflow_bound" "- overflow_bound < round64 x"
    unfolding overflow_bound_def by linarith+
  then show ?thesis by (simp add: fl_def Let_def)
qed

lemma expo_samples:
  shows "expo 1 = 0" and "expo 2 = 1" and "expo 3 = 2 - 1" and "expo 200 = 7"
    and "expo 100000000000000000000 = 66" and "expo 100000000000000000001 = 66"
    and "expo 10000000000000000000000 = 73"
    and "expo (- 100000000000000000000) = 66" and "expo (- 10000000000000000000000) = 73"
  by (rule expo_eqI; simp)+

lemma round64_samples:
  shows "round64 0 = 0" and "round64 1 = 1" and "round64 2 = 2" and "round64 3 = 3" and "round64 200 = 200"
    and "round64 100000000000000000000 = 100000000000000000000"
    and "round64 100000000000000000001 = 100000000000000000000"
    and "round64 10000000000000000000000 = 10000000000000000000000"
    and "round64 (- 100000000000000000000) = - 100000000000000000000"
    and "round64 (- 10000000000000000000000) = - 10000000000000000000000"
  using expo_samples by (simp_all add: round64_def ulp_exp_def rne_def)

lemma fl_samples:
  shows "fl 0 = Fin 0" and "fl 1 = Fin 1" and "fl 2 = Fin 2" and "fl 3 = Fin 3" and "fl 200 = Fin 200"
    and "fl 100000000000000000000 = Fin 100000000000000000000"
    and "fl 100000000000000000001 = Fin 100000000000000000000"
    and "fl 10000000000000000000000 = Fin 10000000000000000000000"
    and "fl (- 100000000000000000000) = Fin (- 100000000000000000000)"
    and "fl (- 10000000000000000000000) = Fin (- 10000000000000000000000)"
  by (subst fl_moderate; simp add: round64_samples)+

lemma expo_large: "expo (2 ^ 1023) = 1023" "expo (2 ^ 1024) = 1024"
  by (rule expo_eqI; simp)+

lemma round64_large: "round64 (2 ^ 1023) = 2 ^ 1023" "round64 (2 ^ 1024) = 2 ^ 1024"
  using expo_large by (simp_all add: round64_def ulp_exp_def rne_def)

lemma fl_large: "fl (2 ^ 1023) = Fin (2 ^ 1023)" "fl (2 ^ 1024) = PosInf"
  using round64_large by (simp_all add: fl_def overflow_bound_def Let_def)

lemmas sample_eval64 =
  aggregate64_Cons latest_holdings_def sample_holding_def total_of64_def fair_value64_def
  exposure_sum64_def SECTORS_def fill_missing64_apply percentages64_apply sector_totals64_def
  add_holding64_def holding_sector_def query_rows_def fl_samples

text \<open>
  Claim C3, as amended.  For every result of an entity's holdings query the aggregation
  writes a percentage for each of the ten sectors and for nothing else.  When the total
  fair value is 0, and more generally whenever it fails the test \<open>totalFairValue > 0\<close>,
  every percentage is exactly 0.  When the total fair value is positive, and the holdings
  of the latest period are at most \<open>10 ^ 6\<close> rows whose stored sector is of the type
  \<open>Sector\<close> and whose stored fair value is not negative and at most \<open>10 ^ 300\<close>, the ten
  percentages are finite numbers and their sum is within \<open>1e-6\<close> of 100.  All numbers are
  binary64 values and every operation rounds as the runtime does.
\<close>

theorem aggregate64_percentages:
  "dom (sectorExposures64 (aggregate64 q)) = set SECTORS \<and>
   (totalFairValue64 (aggregate64 q) = Fin 0 \<longrightarrow>
      list_all (\<lambda>s. sectorExposures64 (aggregate64 q) s = Some (Fin 0)) SECTORS) \<and>
   (\<not> js_positive (totalFairValue64 (aggregate64 q)) \<longrightarrow>
      list_all (\<lambda>s. sectorExposures64 (aggregate64 q) s = Some (Fin 0)) SECTORS) \<and>
   (js_positive (totalFairValue64 (aggregate64 q)) \<and>
    list_all (\<lambda>h. sector_typed h \<and> value_ok h) (latest_holdings (query_rows q)) \<and>
    length (latest_holdings (query_rows q)) \<le> 10 ^ 6 \<longrightarrow>
      sum_within_tolerance (sectorExposures64 (aggregate64 q)))"
proof (cases "q = None \<or> q = Some []")
  case True
  then have a: "aggregate64 q = \<lparr>totalFairValue64 = Fin 0, latestPeriod64 = [], sectorExposures64 = fill_missing64 Map.empty\<rparr>"
    by (rule aggregate64_empty)
  show ?thesis
    by (simp add: a dom_fill_missing64 list_all_iff fill_missing64_apply)
next
  case False
  then obtain h0 rest where q: "q = Some (h0 # rest)"
    by (cases q) (auto simp: neq_Nil_conv)
  let ?L = "latest_holdings (h0 # rest)"
  have d: "dom (sectorExposures64 (aggregate64 q)) = set SECTORS"
    by (simp add: q aggregate64_Cons dom_fill_missing64 dom_percentages64)
  have z: "list_all (\<lambda>s. sectorExposures64 (aggregate64 q) s = Some (Fin 0)) SECTORS"
    if "\<not> js_positive (totalFairValue64 (aggregate64 q))"
    using that by (simp add: q aggregate64_Cons list_all_iff fill_missing64_apply)
  have z0: "list_all (\<lambda>s. sectorExposures64 (aggregate64 q) s = Some (Fin 0)) SECTORS"
    if "totalFairValue64 (aggregate64 q) = Fin 0"
    using that z by simp
  have s: "sum_within_tolerance (sectorExposures64 (aggregate64 q))"
    if "js_positive (totalFairValue64 (aggregate64 q))"
       and "list_all (\<lambda>h. sector_typed h \<and> value_ok h) (latest_holdings (query_rows q))"
       and "length (latest_holdings (query_rows q)) \<le> 10 ^ 6"
  proof -
    from that(1) have t: "js_positive (total_of64 ?L)" by (simp add: q aggregate64_Cons)
    from that(2) have ok: "\<forall>h\<in>set ?L. sector_typed h \<and> value_ok h"
      by (simp add: q query_rows_def list_all_iff)
    from that(3) have len: "length ?L \<le> 10 ^ 6" by (simp add: q query_rows_def)
    from percent_exposures[OF ok len t] t show ?thesis by (simp add: q aggregate64_Cons)
  qed
  from d z z0 s show ?thesis by blast
qed

theorem aggregate64_percentages_witness:
  "js_positive (totalFairValue64 (aggregate64 (Some split_holdings))) \<and>
   list_all (\<lambda>h. sector_typed h \<and> value_ok h) (latest_holdings (query_rows (Some split_holdings))) \<and>
   length (latest_holdings (query_rows (Some split_holdings))) \<le> 10 ^ 6 \<and>
   sum_within_tolerance (sectorExposures64 (aggregate64 (Some split_holdings))) \<and>
   totalFairValue64 (aggregate64 (Some zero_value_holdings)) = Fin 0 \<and>
   \<not> js_positive (totalFairValue64 (aggregate64 (Some zero_value_holdings))) \<and>
   list_all (\<lambda>s. sectorExposures64 (aggregate64 (Some zero_value_holdings)) s = Some (Fin 0)) SECTORS"
proof -
  have t1: "totalFairValue64 (aggregate64 (Some split_holdings)) = Fin 3"
    by (simp add: split_holdings_def sample_eval64)
  then have h1: "js_positive (totalFairValue64 (aggregate64 (Some split_holdings)))" by simp
  have h2: "list_all (\<lambda>h. sector_typed h \<and> value_ok h) (latest_holdings (query_rows (Some split_holdings)))"
    by (simp add: split_holdings_def latest_holdings_def query_rows_def sample_holding_def
          sector_typed_def value_ok_def or_zero_def SECTORS_def)
  have h3: "length (latest_holdings (query_rows (Some split_holdings))) \<le> 10 ^ 6"
    by (simp add: split_holdings_def latest_holdings_def query_rows_def sample_holding_def)
  have h4: "totalFairValue64 (aggregate64 (Some zero_value_holdings)) = Fin 0"
    by (simp add: zero_value_holdings_def sample_eval64)
  then have h5: "\<not> js_positive (totalFairValue64 (aggregate64 (Some zero_value_holdings)))" by simp
  note r1 = aggregate64_percentages [of "Some split_holdings"]
  note r2 = aggregate64_percentages [of "Some zero_value_holdings"]
  note c1 = r1 [THEN conjunct2, THEN conjunct2, THEN conjunct2, THEN mp, OF conjI, OF h1 conjI, OF h2 h3]
  note c2 = r2 [THEN conjunct2, THEN conjunct1, THEN mp, OF h4]
  note c3 = r2 [THEN conjunct2, THEN conjunct2, THEN conjunct1, THEN mp, OF h5]
  from h1 h2 h3 c1 h4 h5 c3 show ?thesis by (intro conjI)
qed

text \<open>
  Claim C3 as stated, for any non-empty holding set, fails in binary64 when fair values
  of both signs cancel.  Four holdings of one period with fair values 1, \<open>1e20\<close>,
  \<open>-1e20\<close> and 1, stored under the sectors Consumer, Energy, Healthcare and Consumer:
  the running total absorbs the first 1 into \<open>1e20\<close> and ends at 1, while the total of
  Consumer is 2.  The total is positive, the percentage of Consumer is 200, and the ten
  percentages sum to 200.
\<close>

theorem aggregate64_mixed_sign:
  "mixed_sign_holdings \<noteq> [] \<and>
   list_all sector_typed (latest_holdings (query_rows (Some mixed_sign_holdings))) \<and>
   totalFairValue64 (aggregate64 (Some mixed_sign_holdings)) = Fin 1 \<and>
   js_positive (totalFairValue64 (aggregate64 (Some mixed_sign_holdings))) \<and>
   sectorExposures64 (aggregate64 (Some mixed_sign_holdings)) ''Consumer'' = Some (Fin 200) \<and>
   exposure_sum64 (sectorExposures64 (aggregate64 (Some mixed_sign_holdings))) = 200 \<and>
   \<not> sum_within_tolerance (sectorExposures64 (aggregate64 (Some mixed_sign_holdings)))"
proof -
  have t: "totalFairValue64 (aggregate64 (Some mixed_sign_holdings)) = Fin 1"
    by (simp add: mixed_sign_holdings_def sample_eval64)
  have ty: "list_all sector_typed (latest_holdings (query_rows (Some mixed_sign_holdings)))"
    by (simp add: mixed_sign_holdings_def latest_holdings_def query_rows_def sample_holding_def
          sector_typed_def SECTORS_def)
  have c: "sectorExposures64 (aggregate64 (Some mixed_sign_holdings)) ''Consumer'' = Some (Fin 200)"
    by (simp add: mixed_sign_holdings_def sample_eval64)
  have e: "exposure_sum64 (sectorExposures64 (aggregate64 (Some mixed_sign_holdings))) = 200"
    by (simp add: mixed_sign_holdings_def sample_eval64)
  then have n: "\<not> sum_within_tolerance (sectorExposures64 (aggregate64 (Some mixed_sign_holdings)))"
    by (simp add: sum_within_tolerance_def)
  have ne: "mixed_sign_holdings \<noteq> []" by (simp add: mixed_sign_holdings_def)
  from t have p: "js_positive (totalFairValue64 (aggregate64 (Some mixed_sign_holdings)))" by simp
  from ne ty t p c e n show ?thesis by (intro conjI)
qed

text \<open>
  The bound on the fair values is needed as well.  Two holdings of one period with the
  fair value \<open>2 ^ 1023\<close> each, stored under Consumer and Energy: the total overflows to
  \<open>Infinity\<close>, which passes the test \<open>totalFairValue > 0\<close>, and every percentage is a
  finite value divided by \<open>Infinity\<close>, that is 0.
\<close>

lemma aggregate64_overflow:
  "list_all (\<lambda>h. sector_typed h \<and> 0 \<le> or_zero (fair_value h))
     (latest_holdings (query_rows (Some overflow_holdings))) \<and>
   totalFairValue64 (aggregate64 (Some overflow_holdings)) = PosInf \<and>
   js_positive (totalFairValue64 (aggregate64 (Some overflow_holdings))) \<and>
   list_all (\<lambda>s. sectorExposures64 (aggregate64 (Some overflow_holdings)) s = Some (Fin 0)) SECTORS \<and>
   \<not> sum_within_tolerance (sectorExposures64 (aggregate64 (Some overflow_holdings)))"
proof -
  have ty: "list_all (\<lambda>h. sector_typed h \<and> 0 \<le> or_zero (fair_value h))
     (latest_holdings (query_rows (Some overflow_holdings)))"
    by (simp add: overflow_holdings_def latest_holdings_def query_rows_def sample_holding_def
          sector_typed_def SECTORS_def or_zero_def)
  have t: "totalFairValue64 (aggregate64 (Some overflow_holdings)) = PosInf"
    using fl_large by (simp add: overflow_holdings_def sample_eval64)
  then have p: "js_positive (totalFairValue64 (aggregate64 (Some overflow_holdings)))" by simp
  have z: "list_all (\<lambda>s. sectorExposures64 (aggregate64 (Some overflow_holdings)) s = Some (Fin 0)) SECTORS"
    using fl_large by (simp add: overflow_holdings_def sample_eval64)
  have e: "exposure_sum64 (sectorExposures64 (aggregate64 (Some overflow_holdings))) = 0"
    using fl_large by (simp add: overflow_holdings_def sample_eval64)
  then have n: "\<not> sum_within_tolerance (sectorExposures64 (aggregate64 (Some overflow_holdings)))"
    by (simp add: sum_within_tolerance_def)
  from ty t p z n show ?thesis by (intro conjI)
qed










lemma merge_rows_kept:
  "x \<in> set (merge_rows db rows) \<Longrightarrow>
   totalFairValue (aggregate (select_holdings db (cik (entity x)))) \<noteq> 0 \<or>
   price (entity x) \<noteq> None \<or> dividend_yield (entity x) \<noteq> None"
  by (induction rows) (auto simp: Let_def split: if_splits)

text \<open>
  Claim C5 at a failing input.  The skip rule of the merge step looks at the total fair
  value, \<open>price\<close> and \<open>dividend_yield\<close> only: an entity without holdings whose only
  populated metric is \<open>nav_per_share\<close> is left out of the result, although the rule is
  meant for records with no financial data at all.
\<close>

theorem getBDCData_drops_nav_only_entity:
  "nav_per_share nav_only_bdc = Some 15 \<and>
   bdcs nav_only_db = Some [nav_only_bdc] \<and>
   fst (getBDCData nav_only_db) = []"
  by (simp add: getBDCData_def nav_only_db_def nav_only_bdc_def sample_db_def blank_bdc_def
      select_holdings_def aggregate_def)





section \<open>Properties of the watchlist\<close>

lemma analyze_ticker_refresh:
  "\<not> fresh_cached env srv t \<Longrightarrow>
   analyze_ticker env (srv, results, errors) t = refresh_ticker env (srv, results, errors) t"
  by (auto simp: analyze_ticker_def fresh_cached_def split: option.splits)

lemma analyze_ticker_reuse:
  "getItem (watchlist srv) t = Some cached \<Longrightarrow> fresh_cached env srv t \<Longrightarrow>
   analyze_ticker env (srv, results, errors) t = (srv, results @ [cached], errors)"
  by (auto simp: analyze_ticker_def fresh_cached_def split: option.splits)

lemma refresh_ticker_calls:
  "calls (batch_server (refresh_ticker env (srv, results, errors) t)) =
     calls srv @ (case fetchTickerData env t of
                    Inl message \<Rightarrow> [QuoteCall t]
                  | Inr fmpData \<Rightarrow> [QuoteCall t, AICall t, CacheWrite t])"
  by (simp add: refresh_ticker_def batch_server_def Let_def split: sum.splits option.splits)

lemma refresh_ticker_not_same: "refresh_ticker env (srv, results, errors) t \<noteq> (srv, results', errors')"
proof
  assume "refresh_ticker env (srv, results, errors) t = (srv, results', errors')"
  then have "calls (batch_server (refresh_ticker env (srv, results, errors) t)) = calls srv"
    by (simp add: batch_server_def)
  then show False by (simp add: refresh_ticker_calls split: sum.splits)
qed

lemma fresh_cached_iff:
  "getItem (watchlist srv) t = Some cached \<Longrightarrow> item_analyzed_at cached = Some a \<Longrightarrow>
   fresh_cached env srv t \<longleftrightarrow> now env - a < 24 * 60 * 60 * 1000"
  by (auto simp: fresh_cached_def isRecent_def)

text \<open>
  Claim C6.  For a ticker whose cached item carries the time \<open>a\<close> in \<open>analyzed_at\<close>: the
  round of that ticker returns the cached item and leaves the server as it was (no quote
  call, no AI call, no cache write) if and only if \<open>now - a < 24\<close> hours; otherwise it
  refreshes: the quote collaborator is called and, when it answers, the AI collaborator
  is called and the cache is written.
\<close>

theorem cached_item_reused_iff_fresh:
  assumes "getItem (watchlist srv) t = Some cached" and "item_analyzed_at cached = Some a"
  shows "(analyze_ticker env (srv, results, errors) t = (srv, results @ [cached], errors)
            \<longleftrightarrow> now env - a < 24 * 60 * 60 * 1000) \<and>
         (now env - a < 24 * 60 * 60 * 1000 \<longrightarrow>
            calls (batch_server (analyze_ticker env (srv, results, errors) t)) = calls srv \<and>
            watchlist (batch_server (analyze_ticker env (srv, results, errors) t)) = watchlist srv) \<and>
         (\<not> now env - a < 24 * 60 * 60 * 1000 \<longrightarrow>
            calls (batch_server (analyze_ticker env (srv, results, errors) t)) =
              calls srv @ (case fetchTickerData env t of
                             Inl message \<Rightarrow> [QuoteCall t]
                           | Inr fmpData \<Rightarrow> [QuoteCall t, AICall t, CacheWrite t]))"
proof (cases "fresh_cached env srv t")
  case True
  with assms have f: "now env - a < 24 * 60 * 60 * 1000" by (simp add: fresh_cached_iff)
  from analyze_ticker_reuse[OF assms(1) True]
  have "analyze_ticker env (srv, results, errors) t = (srv, results @ [cached], errors)" .
  with f show ?thesis by (simp add: batch_server_def)
next
  case False
  with assms have f: "\<not> now env - a < 24 * 60 * 60 * 1000" by (simp add: fresh_cached_iff)
  from analyze_ticker_refresh[OF False]
  have r: "analyze_ticker env (srv, results, errors) t = refresh_ticker env (srv, results, errors) t" .
  show ?thesis using f by (simp add: r refresh_ticker_not_same refresh_ticker_calls)
qed

lemma cached_eval: "getItem (watchlist (cached_server a)) ''ARCC'' = Some (sample_item ''ARCC'' a)"
  by (simp add: getItem_def cached_server_def sample_item_def toUpperCase_def toUpperCase_char_def
      upper_letters_def lower_letters_def)

theorem cached_item_reused_iff_fresh_witness:
  "getItem (watchlist (cached_server (100000000 - 23 * 3600000))) ''ARCC'' =
     Some (sample_item ''ARCC'' (100000000 - 23 * 3600000)) \<and>
   item_analyzed_at (sample_item ''ARCC'' (100000000 - 23 * 3600000)) = Some (100000000 - 23 * 3600000) \<and>
   now (succeeding_env 100000000) - (100000000 - 23 * 3600000) < 24 * 60 * 60 * 1000 \<and>
   analyze_ticker (succeeding_env 100000000) (cached_server (100000000 - 23 * 3600000), [], []) ''ARCC'' =
     (cached_server (100000000 - 23 * 3600000), [] @ [sample_item ''ARCC'' (100000000 - 23 * 3600000)], []) \<and>
   calls (batch_server (analyze_ticker (succeeding_env 100000000)
            (cached_server (100000000 - 23 * 3600000), [], []) ''ARCC'')) = [] \<and>
   \<not> now (succeeding_env 100000000) - (100000000 - 25 * 3600000) < 24 * 60 * 60 * 1000 \<and>
   calls (batch_server (analyze_ticker (succeeding_env 100000000)
            (cached_server (100000000 - 25 * 3600000), [], []) ''ARCC'')) =
     [QuoteCall ''ARCC'', AICall ''ARCC'', CacheWrite ''ARCC'']"
proof -
  let ?e = "succeeding_env 100000000"
  have g1: "getItem (watchlist (cached_server (100000000 - 23 * 3600000))) ''ARCC'' =
     Some (sample_item ''ARCC'' (100000000 - 23 * 3600000))" by (rule cached_eval)
  have a1: "item_analyzed_at (sample_item ''ARCC'' (100000000 - 23 * 3600000)) = Some (100000000 - 23 * 3600000)"
    by (simp add: sample_item_def)
  have f1: "now ?e - (100000000 - 23 * 3600000) < 24 * 60 * 60 * 1000"
    by (simp add: succeeding_env_def failing_ai_env_def)
  have g2: "getItem (watchlist (cached_server (100000000 - 25 * 3600000))) ''ARCC'' =
     Some (sample_item ''ARCC'' (100000000 - 25 * 3600000))" by (rule cached_eval)
  have a2: "item_analyzed_at (sample_item ''ARCC'' (100000000 - 25 * 3600000)) = Some (100000000 - 25 * 3600000)"
    by (simp add: sample_item_def)
  have f2: "\<not> now ?e - (100000000 - 25 * 3600000) < 24 * 60 * 60 * 1000"
    by (simp add: succeeding_env_def failing_ai_env_def)
  have q: "fetchTickerData ?e ''ARCC'' = Inr sample_quote"
    by (simp add: succeeding_env_def failing_ai_env_def)
  have e0: "calls (cached_server (100000000 - 23 * 3600000)) = []"
    and e0': "calls (cached_server (100000000 - 25 * 3600000)) = []"
    by (simp_all add: cached_server_def)
  note r1 = cached_item_reused_iff_fresh [OF g1 a1, of ?e "[]" "[]"]
  note r2 = cached_item_reused_iff_fresh [OF g2 a2, of ?e "[]" "[]"]
  note c1 = r1 [THEN conjunct1, THEN iffD2, OF f1]
  note c2 = r1 [THEN conjunct2, THEN conjunct1, THEN mp, OF f1, THEN conjunct1]
  have c2': "calls (batch_server (analyze_ticker ?e
            (cached_server (100000000 - 23 * 3600000), [], []) ''ARCC'')) = []"
    using c2 unfolding e0 .
  note c3 = r2 [THEN conjunct2, THEN conjunct2, THEN mp, OF f2]
  have c3': "calls (batch_server (analyze_ticker ?e
            (cached_server (100000000 - 25 * 3600000), [], []) ''ARCC'')) =
     [QuoteCall ''ARCC'', AICall ''ARCC'', CacheWrite ''ARCC'']"
    using c3 unfolding e0' q by simp
  from g1 a1 f1 c1 c2' f2 c3' show ?thesis by (intro conjI)
qed

lemma POST_accepts:
  "0 < length tickers \<Longrightarrow> length tickers \<le> 25 \<Longrightarrow>
   POST envs srv (JsonBody (Some tickers)) =
     (batch_server (process_tickers envs 0 (srv, [], []) (cleanTickers tickers)),
      AnalyzeResponse (batch_results (process_tickers envs 0 (srv, [], []) (cleanTickers tickers)))
                      (batch_errors (process_tickers envs 0 (srv, [], []) (cleanTickers tickers))))"
  by (simp add: POST_def batch_server_def batch_results_def batch_errors_def split: prod.splits)

text \<open>
  Claim C7.  A batch of no tickers and a batch of more than 25 tickers are answered with
  status 400 and the server is left as it was, so no collaborator was called and the
  cache was not written; a batch of exactly 25 tickers is accepted and answered with
  results and errors.
\<close>

theorem batch_size_limits:
  "POST envs srv (JsonBody (Some [])) = (srv, ErrorResponse 400 ''No tickers provided'') \<and>
   (length tickers > 25 \<longrightarrow>
      POST envs srv (JsonBody (Some tickers)) = (srv, ErrorResponse 400 ''Maximum 25 tickers at a time'')) \<and>
   (length tickers = 25 \<longrightarrow> accepted (POST envs srv (JsonBody (Some tickers))))"
proof (intro conjI impI)
  show "POST envs srv (JsonBody (Some [])) = (srv, ErrorResponse 400 ''No tickers provided'')"
    by (simp add: POST_def)
  show "POST envs srv (JsonBody (Some tickers)) = (srv, ErrorResponse 400 ''Maximum 25 tickers at a time'')"
    if "length tickers > 25"
  proof -
    from that have "tickers \<noteq> []" by auto
    with that show ?thesis by (simp add: POST_def)
  qed
  show "accepted (POST envs srv (JsonBody (Some tickers)))" if "length tickers = 25"
    using that by (simp add: POST_accepts accepted_def)
qed

theorem batch_size_limits_witness:
  "length (replicate 26 ''ARCC'') > 25 \<and>
   POST (\<lambda>i. succeeding_env 100000000) empty_server (JsonBody (Some (replicate 26 ''ARCC''))) =
     (empty_server, ErrorResponse 400 ''Maximum 25 tickers at a time'') \<and>
   length (replicate 25 ''ARCC'') = 25 \<and>
   accepted (POST (\<lambda>i. succeeding_env 100000000) empty_server (JsonBody (Some (replicate 25 ''ARCC''))))"
proof -
  have h1: "length (replicate 26 ''ARCC'') > 25" by simp
  have h2: "length (replicate 25 ''ARCC'') = 25" by simp
  note c1 = batch_size_limits [THEN conjunct2, THEN conjunct1, THEN mp, OF h1]
  note c2 = batch_size_limits [THEN conjunct2, THEN conjunct2, THEN mp, OF h2]
  from h1 c1 h2 c2 show ?thesis by (intro conjI)
qed

text \<open>
  Claim C8, as amended.  When no fresh cached item exists, the quote fetch succeeds, the
  AI call throws and the cache file can be written, the round of the ticker still
  produces an item, stores it and adds it to the results, with no entry in the errors.
  (When the file cannot be written, the round ends with an error entry and no item, as
  \<open>failed_save_gives_error\<close> shows.)  Its risks are one placeholder string,
  its strengths the same single string, its evaluation a fixed sentence, and its market
  data fields are the values of the quote collaborator.
\<close>

lemma failed_save_gives_error:
  assumes "\<not> fresh_cached env srv t"
      and "fetchTickerData env t = Inr fmpData"
      and "saveError env = Some message"
  shows "batch_results (analyze_ticker env (srv, results, errors) t) = results \<and>
         batch_errors (analyze_ticker env (srv, results, errors) t) = errors @ [(t, message)] \<and>
         watchlist (batch_server (analyze_ticker env (srv, results, errors) t)) = watchlist srv"
  using assms
  by (simp add: analyze_ticker_refresh refresh_ticker_def Let_def batch_results_def
      batch_errors_def batch_server_def)

theorem ai_failure_gives_placeholder_item:
  assumes "\<not> fresh_cached env srv t"
      and "fetchTickerData env t = Inr fmpData"
      and "analyzeWithClaude env t fmpData = Inl aiErr"
      and "saveError env = None"
  shows "analyze_ticker env (srv, results, errors) t =
           (\<lparr>watchlist = upsertItem (watchlist srv) (build_item env t fmpData placeholder_analysis),
             calls = calls srv @ [QuoteCall t, AICall t, CacheWrite t]\<rparr>,
            results @ [build_item env t fmpData placeholder_analysis],
            errors) \<and>
         item_risks (build_item env t fmpData placeholder_analysis) =
           [''AI analysis unavailable - check API key credits''] \<and>
         item_strengths (build_item env t fmpData placeholder_analysis) =
           [''AI analysis unavailable - check API key credits''] \<and>
         item_evaluation (build_item env t fmpData placeholder_analysis) =
           Some ''AI analysis could not be generated. Financial data shown above is from live market data.'' \<and>
         item_ticker (build_item env t fmpData placeholder_analysis) = t \<and>
         item_company_name (build_item env t fmpData placeholder_analysis) = Some (fmp_companyName fmpData) \<and>
         item_description (build_item env t fmpData placeholder_analysis) = Some (fmp_description fmpData) \<and>
         item_sector (build_item env t fmpData placeholder_analysis) = Some (fmp_sector fmpData) \<and>
         item_industry (build_item env t fmpData placeholder_analysis) = Some (fmp_industry fmpData) \<and>
         item_market_cap (build_item env t fmpData placeholder_analysis) = Some (fmp_mktCap fmpData) \<and>
         item_price (build_item env t fmpData placeholder_analysis) = Some (fmp_price fmpData) \<and>
         item_revenue (build_item env t fmpData placeholder_analysis) = Some (fmp_revenue fmpData) \<and>
         item_net_income (build_item env t fmpData placeholder_analysis) = Some (fmp_netIncome fmpData) \<and>
         item_eps (build_item env t fmpData placeholder_analysis) = Some (fmp_eps fmpData) \<and>
         item_pe_ratio (build_item env t fmpData placeholder_analysis) = Some (fmp_peRatio fmpData) \<and>
         item_pb_ratio (build_item env t fmpData placeholder_analysis) = Some (fmp_pbRatio fmpData) \<and>
         item_ev_ebitda (build_item env t fmpData placeholder_analysis) = Some (fmp_evToEBITDA fmpData) \<and>
         item_roe (build_item env t fmpData placeholder_analysis) = Some (fmp_returnOnEquity fmpData) \<and>
         item_ytd_change (build_item env t fmpData placeholder_analysis) = Some (fmp_ytdChange fmpData) \<and>
         item_one_year_change (build_item env t fmpData placeholder_analysis) = Some (fmp_oneYearChange fmpData)"
proof -
  have "analyze_ticker env (srv, results, errors) t = refresh_ticker env (srv, results, errors) t"
    using assms(1) by (rule analyze_ticker_refresh)
  also have "\<dots> = (\<lparr>watchlist = upsertItem (watchlist srv) (build_item env t fmpData placeholder_analysis),
             calls = calls srv @ [QuoteCall t, AICall t, CacheWrite t]\<rparr>,
            results @ [build_item env t fmpData placeholder_analysis], errors)"
    using assms(2,3,4) by (simp add: refresh_ticker_def Let_def)
  finally have 1: "analyze_ticker env (srv, results, errors) t =
           (\<lparr>watchlist = upsertItem (watchlist srv) (build_item env t fmpData placeholder_analysis),
             calls = calls srv @ [QuoteCall t, AICall t, CacheWrite t]\<rparr>,
            results @ [build_item env t fmpData placeholder_analysis], errors)" .
  show ?thesis
    by (intro conjI, rule 1) (simp_all add: build_item_def placeholder_analysis_def num_or_def)
qed

theorem ai_failure_gives_placeholder_item_witness:
  "\<not> fresh_cached (failing_ai_env 100000000) empty_server ''ARCC'' \<and>
   fetchTickerData (failing_ai_env 100000000) ''ARCC'' = Inr sample_quote \<and>
   analyzeWithClaude (failing_ai_env 100000000) ''ARCC'' sample_quote = Inl ''GEMINI_API_KEY not configured'' \<and>
   saveError (failing_ai_env 100000000) = None \<and>
   batch_results (analyze_ticker (failing_ai_env 100000000) (empty_server, [], []) ''ARCC'') =
     [build_item (failing_ai_env 100000000) ''ARCC'' sample_quote placeholder_analysis] \<and>
   batch_errors (analyze_ticker (failing_ai_env 100000000) (empty_server, [], []) ''ARCC'') = [] \<and>
   item_price (build_item (failing_ai_env 100000000) ''ARCC'' sample_quote placeholder_analysis) = Some 21"
proof -
  let ?e = "failing_ai_env 100000000"
  have h1: "\<not> fresh_cached ?e empty_server ''ARCC''"
    by (simp add: fresh_cached_def empty_server_def getItem_def)
  have h2: "fetchTickerData ?e ''ARCC'' = Inr sample_quote" by (simp add: failing_ai_env_def)
  have h3: "analyzeWithClaude ?e ''ARCC'' sample_quote = Inl ''GEMINI_API_KEY not configured''"
    by (simp add: failing_ai_env_def)
  have h4: "saveError ?e = None" by (simp add: failing_ai_env_def)
  note r = ai_failure_gives_placeholder_item [OF h1 h2 h3 h4, of "[]" "[]"]
  from r [THEN conjunct1] have c1: "batch_results (analyze_ticker ?e (empty_server, [], []) ''ARCC'') =
     [build_item ?e ''ARCC'' sample_quote placeholder_analysis]"
    by (simp add: batch_results_def)
  from r [THEN conjunct1] have c2: "batch_errors (analyze_ticker ?e (empty_server, [], []) ''ARCC'') = []"
    by (simp add: batch_errors_def)
  have p: "fmp_price sample_quote = 21" by (simp add: sample_quote_def)
  have c3: "item_price (build_item ?e ''ARCC'' sample_quote placeholder_analysis) = Some 21"
    using r [THEN conjunct2, THEN conjunct2, THEN conjunct2, THEN conjunct2, THEN conjunct2,
             THEN conjunct2, THEN conjunct2, THEN conjunct2, THEN conjunct2, THEN conjunct2, THEN conjunct1]
    unfolding p .
  from h1 h2 h3 h4 c1 c2 c3 show ?thesis by (intro conjI)
qed

text \<open>
  Claim C8 as stated fails in the number of placeholders: the item built after a failed
  AI call has one risk string and one strength string, not three.
\<close>

theorem ai_failure_single_placeholder:
  "fetchTickerData (failing_ai_env 100000000) ''ARCC'' = Inr sample_quote \<and>
   analyzeWithClaude (failing_ai_env 100000000) ''ARCC'' sample_quote = Inl ''GEMINI_API_KEY not configured'' \<and>
   map item_risks (batch_results (analyze_ticker (failing_ai_env 100000000) (empty_server, [], []) ''ARCC'')) =
     [ [''AI analysis unavailable - check API key credits''] ] \<and>
   map item_strengths (batch_results (analyze_ticker (failing_ai_env 100000000) (empty_server, [], []) ''ARCC'')) =
     [ [''AI analysis unavailable - check API key credits''] ] \<and>
   length (item_risks (hd (batch_results (analyze_ticker (failing_ai_env 100000000) (empty_server, [], []) ''ARCC'')))) \<noteq> 3 \<and>
   length (item_strengths (hd (batch_results (analyze_ticker (failing_ai_env 100000000) (empty_server, [], []) ''ARCC'')))) \<noteq> 3"
  by (simp add: analyze_ticker_def refresh_ticker_def Let_def batch_results_def empty_server_def getItem_def
      failing_ai_env_def build_item_def placeholder_analysis_def)

section \<open>Properties of the price refresh\<close>

lemma updateFields_keys: "set (map fst (updateFields y ts)) \<subseteq> set written_columns"
  by (auto simp: updateFields_def written_columns_def split: option.splits if_splits)

lemma same_outsideD: "same_outside cols r r' \<Longrightarrow> col \<notin> set cols \<Longrightarrow> r' col = r col"
  by (simp add: same_outside_def)

lemma same_outside_refl: "same_outside cols r r"
  by (simp add: same_outside_def)

lemma same_outside_trans: "same_outside cols r r' \<Longrightarrow> same_outside cols r' r'' \<Longrightarrow> same_outside cols r r''"
  by (simp add: same_outside_def)

lemma frame_refl: "list_all2 (same_outside cols) rows rows"
  by (simp add: list_all2_refl same_outside_refl)

lemma frame_trans:
  "list_all2 (same_outside cols) a b \<Longrightarrow> list_all2 (same_outside cols) b c \<Longrightarrow>
   list_all2 (same_outside cols) a c"
  using list_all2_trans[of "same_outside cols" "same_outside cols" "same_outside cols" a b c]
    same_outside_trans[of cols]
  by blast

lemma update_rows_frame:
  assumes "set (map fst upd) \<subseteq> set cols"
  shows "list_all2 (same_outside cols) rows (update_rows rows c upd)"
proof -
  have "same_outside cols r (r ++ map_of upd)" for r
  proof -
    have "(r ++ map_of upd) col = r col" if "col \<notin> set cols" for col
    proof -
      from that assms have "col \<notin> fst ` set upd" by auto
      then have "map_of upd col = None" by (simp add: map_of_eq_None_iff)
      then show ?thesis by (simp add: map_add_def)
    qed
    then show ?thesis by (simp add: same_outside_def)
  qed
  then show ?thesis
    by (simp add: update_rows_def list_all2_map2 list_all2_refl same_outside_refl)
qed

lemma refresh_bdc_frame:
  "list_all2 (same_outside written_columns) rows (fst (refresh_bdc env (rows, results) bdc))"
  by (cases bdc)
     (auto simp: refresh_bdc_def Let_def frame_refl update_rows_frame[OF updateFields_keys]
           split: sum.splits option.splits)

lemma refresh_all_frame:
  "list_all2 (same_outside written_columns) rows (fst (refresh_all envs i (rows, results) pairs))"
proof (induction pairs arbitrary: i rows results)
  case Nil
  show ?case by (simp add: frame_refl)
next
  case (Cons bdc rest)
  obtain rows' results' where s: "refresh_bdc (envs i) (rows, results) bdc = (rows', results')"
    by (cases "refresh_bdc (envs i) (rows, results) bdc")
  from refresh_bdc_frame[of rows "envs i" results bdc] s
  have 1: "list_all2 (same_outside written_columns) rows rows'" by simp
  from Cons.IH[of rows' "Suc i" results']
  have 2: "list_all2 (same_outside written_columns) rows' (fst (refresh_all envs (Suc i) (rows', results') rest))" .
  from frame_trans[OF 1 2] show ?case by (simp add: s)
qed

lemma GET_frame: "list_all2 (same_outside written_columns) rows (fst (GET envs fetchError rows))"
proof (cases fetchError)
  case None
  obtain rows' results where s: "refresh_all envs 0 (rows, []) (ticker_rows rows) = (rows', results)"
    by (cases "refresh_all envs 0 (rows, []) (ticker_rows rows)")
  from refresh_all_frame[of rows envs 0 "[]" "ticker_rows rows"] s
  show ?thesis by (simp add: GET_def None Let_def)
next
  case (Some message)
  then show ?thesis by (simp add: GET_def frame_refl)
qed

text \<open>
  Claim C10.  After the refresh job every row of the table agrees with the row before
  the job on every column other than \<open>updated_at\<close>, \<open>price\<close>, \<open>dividend_yield\<close>,
  \<open>nav_per_share\<close>, \<open>debt_to_equity\<close> and \<open>price_to_nav\<close>; in particular \<open>non_accrual_pct\<close>,
  \<open>dividend_growth_3yr\<close>, \<open>total_assets\<close> and \<open>net_investment_income_yield\<close> are never
  changed.  The update of one entity writes \<open>updated_at\<close>, writes each of the four quoted
  metrics exactly when the fresh value is not \<open>null\<close>, and writes \<open>price_to_nav\<close> only when
  both the fresh price and the fresh net asset value are there.
\<close>

theorem refresh_writes_only_price_columns:
  "list_all2 (same_outside written_columns) rows (fst (GET envs fetchError rows)) \<and>
   list_all (\<lambda>col. col \<notin> set written_columns)
     [''non_accrual_pct'', ''dividend_growth_3yr'', ''total_assets'', ''net_investment_income_yield''] \<and>
   set (map fst (updateFields yahooData stamp)) \<subseteq> set written_columns \<and>
   map_of (updateFields yahooData stamp) ''updated_at'' = Some (Str stamp) \<and>
   map_of (updateFields yahooData stamp) ''price'' = map_option Num (yahoo_price yahooData) \<and>
   map_of (updateFields yahooData stamp) ''dividend_yield'' = map_option Num (yahoo_dividend_yield yahooData) \<and>
   map_of (updateFields yahooData stamp) ''nav_per_share'' = map_option Num (yahoo_nav_per_share yahooData) \<and>
   map_of (updateFields yahooData stamp) ''debt_to_equity'' = map_option Num (yahoo_debt_to_equity yahooData) \<and>
   (map_of (updateFields yahooData stamp) ''price_to_nav'' \<noteq> None \<longrightarrow>
      yahoo_price yahooData \<noteq> None \<and> yahoo_nav_per_share yahooData \<noteq> None)"
proof (intro conjI)
  show "list_all2 (same_outside written_columns) rows (fst (GET envs fetchError rows))"
    by (rule GET_frame)
  show "list_all (\<lambda>col. col \<notin> set written_columns)
     [''non_accrual_pct'', ''dividend_growth_3yr'', ''total_assets'', ''net_investment_income_yield'']"
    by (simp add: written_columns_def)
  show "set (map fst (updateFields yahooData stamp)) \<subseteq> set written_columns"
    by (rule updateFields_keys)
  show "map_of (updateFields yahooData stamp) ''updated_at'' = Some (Str stamp)"
    by (simp add: updateFields_def)
  show "map_of (updateFields yahooData stamp) ''price'' = map_option Num (yahoo_price yahooData)"
    by (simp add: updateFields_def map_add_def split: option.splits)
  show "map_of (updateFields yahooData stamp) ''dividend_yield'' = map_option Num (yahoo_dividend_yield yahooData)"
    by (simp add: updateFields_def map_add_def split: option.splits)
  show "map_of (updateFields yahooData stamp) ''nav_per_share'' = map_option Num (yahoo_nav_per_share yahooData)"
    by (simp add: updateFields_def map_add_def split: option.splits)
  show "map_of (updateFields yahooData stamp) ''debt_to_equity'' = map_option Num (yahoo_debt_to_equity yahooData)"
    by (simp add: updateFields_def map_add_def split: option.splits)
  show "map_of (updateFields yahooData stamp) ''price_to_nav'' \<noteq> None \<longrightarrow>
      yahoo_price yahooData \<noteq> None \<and> yahoo_nav_per_share yahooData \<noteq> None"
    by (simp add: updateFields_def map_add_def split: option.splits)
qed

lemma sample_GET:
  "fst (GET (\<lambda>i. sample_refresh_env) None [sample_row]) =
     [sample_row ++ map_of (updateFields sample_yahoo ''2025-01-02T03:04:05.000Z'')]"
  by (simp add: GET_def ticker_rows_def List.map_filter_simps sample_row_def refresh_bdc_def
      sample_refresh_env_def updateFields_def sample_yahoo_def update_rows_def Let_def)

theorem refresh_writes_only_price_columns_witness:
  "''non_accrual_pct'' \<notin> set written_columns \<and>
   hd (fst (GET (\<lambda>i. sample_refresh_env) None [sample_row])) ''non_accrual_pct'' = Some (Num 2) \<and>
   hd (fst (GET (\<lambda>i. sample_refresh_env) None [sample_row])) ''price'' = Some (Num 21) \<and>
   map_of (updateFields sample_yahoo ''2025-01-02T03:04:05.000Z'') ''price_to_nav'' \<noteq> None \<and>
   yahoo_price sample_yahoo \<noteq> None \<and> yahoo_nav_per_share sample_yahoo \<noteq> None"
proof -
  note r = refresh_writes_only_price_columns
    [of "[sample_row]" "\<lambda>i. sample_refresh_env" None sample_yahoo "''2025-01-02T03:04:05.000Z''"]
  have h1: "''non_accrual_pct'' \<notin> set written_columns" by (simp add: written_columns_def)
  from r [THEN conjunct1]
  have "same_outside written_columns sample_row (hd (fst (GET (\<lambda>i. sample_refresh_env) None [sample_row])))"
    by (cases "fst (GET (\<lambda>i. sample_refresh_env) None [sample_row])") simp_all
  from same_outsideD [OF this h1]
  have c1: "hd (fst (GET (\<lambda>i. sample_refresh_env) None [sample_row])) ''non_accrual_pct'' = Some (Num 2)"
    by (simp add: sample_row_def)
  have c2: "hd (fst (GET (\<lambda>i. sample_refresh_env) None [sample_row])) ''price'' = Some (Num 21)"
    by (simp add: sample_GET updateFields_def sample_yahoo_def map_add_def)
  have h2: "map_of (updateFields sample_yahoo ''2025-01-02T03:04:05.000Z'') ''price_to_nav'' \<noteq> None"
    by (simp add: updateFields_def sample_yahoo_def)
  note c3 = r [THEN conjunct2, THEN conjunct2, THEN conjunct2, THEN conjunct2, THEN conjunct2,
                THEN conjunct2, THEN conjunct2, THEN conjunct2, THEN mp, OF h2]
  from h1 c1 c2 h2 c3 show ?thesis by (intro conjI) simp_all
qed

end
